theory Spec2Isabelle
  imports Complex_Main
begin

section \<open>Python strings and values\<close>

text \<open>
  Python \<open>str\<close> values are modelled as \<^typ>\<open>string\<close> holding ASCII text: \<open>lower\<close>,
  \<open>isspace\<close> and the regular-expression classes \<open>\s\<close> and \<open>\w\<close> are written out for
  the ASCII range, where Python and SQLite agree on them.
\<close>

definition ascii_upper :: string where
  "ascii_upper = ''ABCDEFGHIJKLMNOPQRSTUVWXYZ''"

definition ascii_lower :: string where
  "ascii_lower = ''abcdefghijklmnopqrstuvwxyz''"

definition lower_char :: "char \<Rightarrow> char" where
  "lower_char c = (case map_of (zip ascii_upper ascii_lower) c of None \<Rightarrow> c | Some d \<Rightarrow> d)"

definition upper_char :: "char \<Rightarrow> char" where
  "upper_char c = (case map_of (zip ascii_lower ascii_upper) c of None \<Rightarrow> c | Some d \<Rightarrow> d)"

definition py_lower :: "string \<Rightarrow> string" where
  "py_lower s = map lower_char s"

definition py_upper :: "string \<Rightarrow> string" where
  "py_upper s = map upper_char s"

definition is_space :: "char \<Rightarrow> bool" where
  "is_space c = (c \<in> set [CHR 0x09, CHR 0x0A, CHR 0x0B, CHR 0x0C, CHR 0x0D,
                            CHR 0x1C, CHR 0x1D, CHR 0x1E, CHR 0x1F, CHR 0x20])"

definition is_word :: "char \<Rightarrow> bool" where
  "is_word c = (c \<in> set (ascii_lower @ ascii_upper @ ''0123456789_''))"

definition py_strip :: "string \<Rightarrow> string" where
  "py_strip s = rev (dropWhile is_space (rev (dropWhile is_space s)))"

text \<open>\<open>s.split()\<close>: the maximal runs of non-whitespace characters, in order.\<close>

fun split_aux :: "string \<Rightarrow> string \<Rightarrow> string list" where
  "split_aux cur [] = (if cur = [] then [] else [cur])"
| "split_aux cur (c # cs) =
     (if is_space c then (if cur = [] then split_aux [] cs else cur # split_aux [] cs)
      else split_aux (cur @ [c]) cs)"

definition py_split :: "string \<Rightarrow> string list" where
  "py_split s = split_aux [] s"

text \<open>\<open>re.sub(r'\s+', ' ', s)\<close>: every maximal run of whitespace becomes one blank.\<close>

fun sub_ws_aux :: "bool \<Rightarrow> string \<Rightarrow> string" where
  "sub_ws_aux in_run [] = []"
| "sub_ws_aux in_run (c # cs) =
     (if is_space c then (if in_run then sub_ws_aux True cs else CHR '' '' # sub_ws_aux True cs)
      else c # sub_ws_aux False cs)"

definition sub_whitespace :: "string \<Rightarrow> string" where
  "sub_whitespace s = sub_ws_aux False s"

text \<open>\<open>re.sub(r'[^\w\s]', '', s)\<close>: drop what is neither a word character nor whitespace.\<close>

definition sub_punctuation :: "string \<Rightarrow> string" where
  "sub_punctuation s = filter (\<lambda>c. is_word c \<or> is_space c) s"

definition endswith :: "string \<Rightarrow> string \<Rightarrow> bool" where
  "endswith s suf = (length suf \<le> length s \<and> drop (length s - length suf) s = suf)"

text \<open>\<open>x in s\<close> for strings: \<open>x\<close> occurs in \<open>s\<close> as a contiguous substring.\<close>

fun str_contains :: "string \<Rightarrow> string \<Rightarrow> bool" where
  "str_contains [] x = (x = [])"
| "str_contains (c # cs) x = (take (length x) (c # cs) = x \<or> str_contains cs x)"

text \<open>Comparison of strings by code point, as Python's \<open><\<close> and SQLite's BINARY collation do.\<close>

fun str_lt :: "string \<Rightarrow> string \<Rightarrow> bool" where
  "str_lt [] [] = False"
| "str_lt [] (y # ys) = True"
| "str_lt (x # xs) [] = False"
| "str_lt (x # xs) (y # ys) =
     ((of_char x :: nat) < of_char y \<or> (x = y \<and> str_lt xs ys))"

definition str_le :: "string \<Rightarrow> string \<Rightarrow> bool" where
  "str_le a b = (a = b \<or> str_lt a b)"

text \<open>
  The values a candidate dictionary holds: \<open>None\<close>, booleans, numbers (an \<open>int\<close> or a
  \<open>float\<close>, read as the rational it denotes) and strings.
\<close>

datatype pyval = PNone | PBool bool | PNum rat | PStr string

datatype py_error = AttributeError | TypeError | IndexError

definition truthy :: "pyval \<Rightarrow> bool" where
  "truthy v = (case v of PNone \<Rightarrow> False | PBool b \<Rightarrow> b | PNum q \<Rightarrow> q \<noteq> 0 | PStr s \<Rightarrow> s \<noteq> [])"

text \<open>\<open>a < b\<close>: numbers and booleans compare as numbers, strings as strings, anything else
  raises \<open>TypeError\<close>.\<close>

definition num_of :: "pyval \<Rightarrow> rat option" where
  "num_of v = (case v of PBool b \<Rightarrow> Some (if b then 1 else 0) | PNum q \<Rightarrow> Some q | _ \<Rightarrow> None)"

definition py_lt :: "pyval \<Rightarrow> pyval \<Rightarrow> py_error + bool" where
  "py_lt a b =
     (case (a, b) of
        (PStr s, PStr t) \<Rightarrow> Inr (str_lt s t)
      | _ \<Rightarrow> (case (num_of a, num_of b) of
                (Some p, Some q) \<Rightarrow> Inr (p < q)
              | _ \<Rightarrow> Inl TypeError))"

text \<open>\<open>a == b\<close>, as used for dictionary keys: \<open>True == 1\<close> and \<open>False == 0\<close>.\<close>

definition py_eq :: "pyval \<Rightarrow> pyval \<Rightarrow> bool" where
  "py_eq a b =
     (case (num_of a, num_of b) of
        (Some p, Some q) \<Rightarrow> p = q
      | _ \<Rightarrow> a = b)"

text \<open>A dictionary with string keys, in insertion order.\<close>

type_synonym pydict = "(string \<times> pyval) list"

definition dict_get :: "pydict \<Rightarrow> string \<Rightarrow> pyval \<Rightarrow> pyval" where
  "dict_get d k dflt = (case map_of d k of None \<Rightarrow> dflt | Some v \<Rightarrow> v)"

fun dict_set :: "pydict \<Rightarrow> string \<Rightarrow> pyval \<Rightarrow> pydict" where
  "dict_set [] k v = [(k, v)]"
| "dict_set ((k', v') # d) k v = (if k' = k then (k, v) # d else (k', v') # dict_set d k v)"

text \<open>Sequencing of a computation that may raise.\<close>

definition bind_err :: "py_error + 'a \<Rightarrow> ('a \<Rightarrow> py_error + 'b) \<Rightarrow> py_error + 'b" where
  "bind_err m f = (case m of Inl e \<Rightarrow> Inl e | Inr x \<Rightarrow> f x)"

fun fold_err :: "('a \<Rightarrow> 's \<Rightarrow> py_error + 's) \<Rightarrow> 'a list \<Rightarrow> 's \<Rightarrow> py_error + 's" where
  "fold_err f [] s = Inr s"
| "fold_err f (x # xs) s = bind_err (f x s) (fold_err f xs)"

section \<open>Entity resolver\<close>

definition common_suffixes :: "string list" where
  "common_suffixes = [''plant'', ''facility'', ''unit'', ''manufacturing'', ''factory'', ''site'']"

definition strip_suffix :: "string \<Rightarrow> string \<Rightarrow> string" where
  "strip_suffix suffix name =
     (if endswith name (CHR '' '' # suffix)
      then py_strip (take (length name - length suffix) name)
      else name)"

text \<open>\<open>normalize_name\<close> on a \<open>str\<close> argument.\<close>

definition normalize_str :: "string \<Rightarrow> string" where
  "normalize_str name =
     (if name = [] then []
      else fold strip_suffix common_suffixes
             (sub_punctuation (sub_whitespace (py_strip (py_lower name)))))"

definition normalize_name :: "pyval \<Rightarrow> py_error + string" where
  "normalize_name name =
     (if \<not> truthy name then Inr []
      else (case name of PStr s \<Rightarrow> Inr (normalize_str s) | _ \<Rightarrow> Inl AttributeError))"

definition location_part :: "pyval \<Rightarrow> py_error + string list" where
  "location_part v =
     (if truthy v
      then (case v of PStr s \<Rightarrow> Inr [py_strip (py_lower s)] | _ \<Rightarrow> Inl AttributeError)
      else Inr [])"

fun join_blank :: "string list \<Rightarrow> string" where
  "join_blank [] = []"
| "join_blank [p] = p"
| "join_blank (p # q # ps) = p @ CHR '' '' # join_blank (q # ps)"

definition normalize_location :: "pyval \<Rightarrow> pyval \<Rightarrow> py_error + string" where
  "normalize_location city state =
     bind_err (location_part city) (\<lambda>c.
     bind_err (location_part state) (\<lambda>s.
     Inr (join_blank (c @ s))))"

definition calculate_similarity :: "string \<Rightarrow> string \<Rightarrow> rat" where
  "calculate_similarity name1 name2 =
     (if name1 = [] \<or> name2 = [] then 0
      else let tokens1 = set (py_split (py_lower name1));
               tokens2 = set (py_split (py_lower name2))
           in if tokens1 = {} \<or> tokens2 = {} then 0
              else if tokens1 \<union> tokens2 = {} then 0
              else of_nat (card (tokens1 \<inter> tokens2)) / of_nat (card (tokens1 \<union> tokens2)))"

definition states :: "string list" where
  "states = [''gujarat'', ''tamil nadu'', ''maharashtra'', ''haryana'', ''karnataka'',
             ''uttar pradesh'', ''rajasthan'', ''punjab'', ''telangana'']"

text \<open>
  Rule 1 of \<open>should_merge\<close> on the normalized names: \<open>Some b\<close> when the block returns
  \<open>b\<close>, \<open>None\<close> when control falls through to Rule 2.
\<close>

definition rule1 :: "string \<Rightarrow> string \<Rightarrow> string \<Rightarrow> string \<Rightarrow> bool option" where
  "rule1 norm_name1 loc1 norm_name2 loc2 =
     (if norm_name1 = norm_name2 \<and> norm_name1 \<noteq> [] then
        (let loc1_lower = (if loc1 \<noteq> [] then py_lower loc1 else []);
             loc2_lower = (if loc2 \<noteq> [] then py_lower loc2 else [])
         in if loc1_lower = [] \<or> loc2_lower = [] then
              (if length norm_name1 > 5 then Some True else Some False)
            else if set (py_split loc1_lower) \<inter> set (py_split loc2_lower) \<noteq> {} then Some True
            else None)
      else None)"

definition rule2 :: "string \<Rightarrow> string \<Rightarrow> string \<Rightarrow> string \<Rightarrow> rat \<Rightarrow> bool" where
  "rule2 norm_name1 loc1 norm_name2 loc2 threshold =
     (if calculate_similarity norm_name1 norm_name2 \<ge> threshold then
        (let loc1_lower = (if loc1 \<noteq> [] then py_lower loc1 else []);
             loc2_lower = (if loc2 \<noteq> [] then py_lower loc2 else [])
         in if loc1_lower \<noteq> [] \<and> loc2_lower \<noteq> [] then
              list_ex (\<lambda>state. str_contains loc1_lower state \<and> str_contains loc2_lower state) states
            else False)
      else False)"

definition should_merge ::
  "pyval \<Rightarrow> string \<Rightarrow> pyval \<Rightarrow> string \<Rightarrow> rat \<Rightarrow> py_error + bool" where
  "should_merge name1 loc1 name2 loc2 threshold =
     bind_err (normalize_name name1) (\<lambda>norm_name1.
     bind_err (normalize_name name2) (\<lambda>norm_name2.
     (case rule1 norm_name1 loc1 norm_name2 loc2 of
        Some b \<Rightarrow> Inr b
      | None \<Rightarrow> Inr (rule2 norm_name1 loc1 norm_name2 loc2 threshold))))"

definition default_threshold :: rat where
  "default_threshold = 8 / 10"

text \<open>One \<open>(key, value)\<close> item of a later candidate, applied to the merged record.\<close>

definition date_keys :: "string list" where
  "date_keys = [''event_date'', ''announcement_date'']"

definition merge_item :: "string \<times> pyval \<Rightarrow> pydict \<Rightarrow> py_error + pydict" where
  "merge_item item merged =
     (let key = fst item; value = snd item;
          m1 = (if \<not> truthy (dict_get merged key PNone) \<and> truthy value
                then dict_set merged key value else merged)
      in bind_err
           (if key \<in> set date_keys \<and> truthy value then
              (if \<not> truthy (dict_get m1 key PNone) then Inr (dict_set m1 key value)
               else bind_err (py_lt value (dict_get m1 key PNone))
                      (\<lambda>b. Inr (if b then dict_set m1 key value else m1)))
            else Inr m1)
           (\<lambda>m2.
              if key = ''confidence'' \<and> truthy value then
                (if \<not> truthy (dict_get m2 key PNone) then Inr (dict_set m2 key value)
                 else bind_err (py_lt (dict_get m2 key PNone) value)
                        (\<lambda>b. Inr (if b then dict_set m2 key value else m2)))
              else Inr m2))"

text \<open>\<open>merged.update(d)\<close>.\<close>

definition dict_update :: "pydict \<Rightarrow> pydict \<Rightarrow> pydict" where
  "dict_update merged d = fold (\<lambda>item m. dict_set m (fst item) (snd item)) d merged"

definition merge_facility_group :: "pydict list \<Rightarrow> py_error + pydict" where
  "merge_facility_group facilities =
     (case facilities of
        [] \<Rightarrow> Inl IndexError
      | first # others \<Rightarrow>
          bind_err (fold_err (\<lambda>fac merged. fold_err merge_item fac merged) others
                      (dict_update [] first))
            (\<lambda>merged.
               Inr (dict_set (dict_set merged ''was_merged'' (PBool True))
                      ''merge_count'' (PNum (of_nat (length facilities))))))"

text \<open>The partition by division: a dictionary from division value to candidate list,
  in first-seen order.\<close>

fun group_append :: "(pyval \<times> pydict list) list \<Rightarrow> pyval \<Rightarrow> pydict \<Rightarrow> (pyval \<times> pydict list) list" where
  "group_append [] dv fac = [(dv, [fac])]"
| "group_append ((dv', facs) # gs) dv fac =
     (if py_eq dv' dv then (dv', facs @ [fac]) # gs else (dv', facs) # group_append gs dv fac)"

definition division_groups :: "pydict list \<Rightarrow> (pyval \<times> pydict list) list" where
  "division_groups facilities =
     fold (\<lambda>fac groups. group_append groups (dict_get fac ''division'' (PStr ''Unknown'')) fac)
       facilities []"

definition inner_step ::
  "nat \<times> pydict \<Rightarrow> nat \<times> pydict \<Rightarrow> pydict list \<times> nat set \<Rightarrow> py_error + (pydict list \<times> nat set)" where
  "inner_step anchor other st =
     (let i = fst anchor; fac1 = snd anchor; j = fst other; fac2 = snd other;
          merge_group = fst st; merged_indices = snd st
      in if j \<le> i \<or> j \<in> merged_indices then Inr st
         else
           bind_err (normalize_location (dict_get fac1 ''city'' PNone) (dict_get fac1 ''state'' PNone))
             (\<lambda>loc1.
           bind_err (normalize_location (dict_get fac2 ''city'' PNone) (dict_get fac2 ''state'' PNone))
             (\<lambda>loc2.
           bind_err (should_merge (dict_get fac1 ''name'' (PStr [])) loc1
                                  (dict_get fac2 ''name'' (PStr [])) loc2 default_threshold)
             (\<lambda>b. Inr (if b then (merge_group @ [fac2], insert j merged_indices) else st)))))"

definition outer_step ::
  "pydict list \<Rightarrow> nat \<times> pydict \<Rightarrow> nat set \<times> pydict list \<Rightarrow> py_error + (nat set \<times> pydict list)" where
  "outer_step fac_list anchor st =
     (let i = fst anchor; fac1 = snd anchor; merged_indices = fst st; resolved = snd st
      in if i \<in> merged_indices then Inr st
         else
           bind_err (fold_err (inner_step anchor) (enumerate 0 fac_list) ([fac1], merged_indices))
             (\<lambda>r.
           bind_err (merge_facility_group (fst r))
             (\<lambda>merged_fac. Inr (snd r, resolved @ [merged_fac]))))"

definition resolve_division :: "pydict list \<Rightarrow> pydict list \<Rightarrow> py_error + pydict list" where
  "resolve_division fac_list resolved =
     bind_err (fold_err (outer_step fac_list) (enumerate 0 fac_list) ({}, resolved))
       (\<lambda>st. Inr (snd st))"

definition resolve_facilities :: "pydict list \<Rightarrow> py_error + pydict list" where
  "resolve_facilities facilities =
     (if facilities = [] then Inr []
      else fold_err (\<lambda>grp resolved. resolve_division (snd grp) resolved)
             (division_groups facilities) [])"

definition merge_count :: "pydict \<Rightarrow> rat" where
  "merge_count d = (case map_of d ''merge_count'' of Some (PNum q) \<Rightarrow> q | _ \<Rightarrow> 0)"

section \<open>Store\<close>

text \<open>
  The seven tables, each a list of rows in rowid order. A nullable column is an
  \<open>option\<close> (\<open>None\<close> is SQL \<open>NULL\<close>); a \<open>REAL\<close> column holds the rational its value denotes.
\<close>

record company_row =
  c_id :: nat
  c_name :: string

record division_row =
  d_id :: nat
  d_company_id :: nat
  d_name :: string

record source_row =
  s_id :: nat
  s_url :: "string option"
  s_title :: "string option"
  s_fetched_at :: "string option"
  s_mime_type :: "string option"
  s_publish_date :: "string option"
  s_source_type :: "string option"

record facility_row =
  f_id :: nat
  f_division_id :: "nat option"
  f_name :: "string option"
  f_city :: "string option"
  f_state :: "string option"
  f_country :: "string option"
  f_normalized_name :: "string option"

record event_row =
  e_id :: nat
  e_facility_id :: "nat option"
  e_event_type :: "string option"
  e_event_date :: "string option"
  e_status :: "string option"
  e_expansion_type :: "string option"
  e_confidence :: "rat option"

record evidence_row =
  ev_id :: nat
  ev_source_id :: "nat option"
  ev_entity_type :: "string option"
  ev_entity_id :: "nat option"
  ev_text_snippet :: "string option"
  ev_confidence :: "rat option"

record job_row =
  j_id :: nat
  j_facility_id :: "nat option"
  j_title :: "string option"
  j_location :: "string option"
  j_division_id :: "nat option"
  j_is_factory_role :: "nat option"
  j_source_id :: "nat option"
  j_posted_date :: "string option"
  j_description :: "string option"

record store =
  companies :: "company_row list"
  divisions :: "division_row list"
  sources :: "source_row list"
  facilities :: "facility_row list"
  events :: "event_row list"
  evidence :: "evidence_row list"
  jobs :: "job_row list"

definition empty_store :: store where
  "empty_store = \<lparr>companies = [], divisions = [], sources = [], facilities = [],
                   events = [], evidence = [], jobs = []\<rparr>"

text \<open>\<open>AUTOINCREMENT\<close>: the new rowid is one more than the largest one in the table (no
  operation modelled here deletes a row). Rowids serve as join keys; which values they
  take beyond being fresh and positive is the engine's choice.\<close>

definition next_id :: "nat list \<Rightarrow> nat" where
  "next_id ids = Suc (fold max ids 0)"

text \<open>SQL comparison: not true when either side is \<open>NULL\<close>.\<close>

definition sql_eq :: "'a option \<Rightarrow> 'a option \<Rightarrow> bool" where
  "sql_eq a b = (case (a, b) of (Some x, Some y) \<Rightarrow> x = y | _ \<Rightarrow> False)"

definition sql_lower :: "string option \<Rightarrow> string option" where
  "sql_lower a = map_option py_lower a"

section \<open>Graph builder: ingestion\<close>

text \<open>
  A key of a dictionary of the extracted data: absent, holding \<open>None\<close>, holding a value of
  the type the code expects (a string, a flag, a dictionary, a list of dictionaries), or
  holding a value of another type. \<open>Array\<close> stands for that last case and makes it definite:
  a non-empty array of numbers. It is truthy, it can be iterated and sliced, it has neither
  \<open>get\<close> nor the string methods, no key is an element of it, and SQLite cannot bind it as
  a parameter. Numbers and flags in the place of a string are not represented.
\<close>

datatype 'a field = Missing | Null | Val 'a | Array

text \<open>\<open>d.get(key, default)\<close>; \<open>d.get(key)\<close> is \<open>field_get f Null\<close>.\<close>

definition field_get :: "'a field \<Rightarrow> 'a field \<Rightarrow> 'a field" where
  "field_get f dflt = (case f of Missing \<Rightarrow> dflt | _ \<Rightarrow> f)"

text \<open>A parameter of a statement: \<open>None\<close> is bound as \<open>NULL\<close> and a string as text;
  \<open>execute\<close> raises on an array, before the statement has any effect.\<close>

definition bindable :: "string field \<Rightarrow> bool" where
  "bindable v = (case v of Array \<Rightarrow> False | _ \<Rightarrow> True)"

definition sql_text :: "string field \<Rightarrow> string option" where
  "sql_text v = (case v of Val s \<Rightarrow> Some s | _ \<Rightarrow> None)"

record fac_data =
  fd_name :: "string field"
  fd_division :: "string field"
  fd_city :: "string field"
  fd_state :: "string field"
  fd_country :: "string field"
  fd_status :: "string field"
  fd_date :: "string field"
  fd_expansion_type :: "string field"

record job_data =
  jd_title :: "string field"
  jd_location :: "string field"
  jd_is_factory_role :: "bool field"
  jd_posted_date :: "string field"
  jd_description :: "string field"

record facility_entity =
  fe_text :: "string field"

record job_entity =
  je_text :: "string field"
  je_location :: "string field"
  je_is_factory_role :: "bool field"

record source_data =
  sd_url :: "string field"
  sd_title :: "string field"
  sd_fetched_at :: "string field"
  sd_mime :: "string field"
  sd_publish_dt :: "string field"
  sd_source_type :: "string field"
  structured_facilities :: "fac_data list field"
  structured_jobs :: "job_data list field"

record entities =
  ent_facilities :: "facility_entity list field"
  ent_job_titles :: "job_entity list field"

record item =
  it_source_data :: "source_data field"
  it_entities :: "entities field"

text \<open>The empty dictionary \<open>{}\<close>, the default of \<open>item.get('source_data', {})\<close> and of
  \<open>item.get('entities', {})\<close>.\<close>

definition source_absent :: source_data where
  "source_absent = \<lparr>sd_url = Missing, sd_title = Missing, sd_fetched_at = Missing,
                     sd_mime = Missing, sd_publish_dt = Missing, sd_source_type = Missing,
                     structured_facilities = Missing, structured_jobs = Missing\<rparr>"

definition entities_absent :: entities where
  "entities_absent = \<lparr>ent_facilities = Missing, ent_job_titles = Missing\<rparr>"

record stats =
  st_divisions :: nat
  st_facilities :: nat
  st_events :: nat
  st_jobs :: nat
  st_sources :: nat

definition division_map :: "(string \<times> string) list" where
  "division_map =
     [(''MSWIL'', ''Wiring Systems''), (''MSW'', ''Wiring Systems''), (''WIRING'', ''Wiring Systems''),
      (''SMR'', ''Vision Systems''), (''VISION'', ''Vision Systems''), (''SMP'', ''Polymers''),
      (''POLYMER'', ''Polymers''), (''SEATING'', ''Seating Systems''), (''LOGISTICS'', ''Logistics''),
      (''PKC'', ''Wiring Systems'')]"

definition city_to_state :: "(string \<times> string) list" where
  "city_to_state =
     [(''Sanand'', ''Gujarat''), (''Ahmedabad'', ''Gujarat''), (''Navagam'', ''Gujarat''),
      (''Pune'', ''Maharashtra''), (''Chakan'', ''Maharashtra''), (''Mumbai'', ''Maharashtra''),
      (''Chennai'', ''Tamil Nadu''), (''Hosur'', ''Tamil Nadu''),
      (''Bangalore'', ''Karnataka''), (''Bengaluru'', ''Karnataka''),
      (''Manesar'', ''Haryana''), (''Gurgaon'', ''Haryana''), (''Gurugram'', ''Haryana''),
      (''Noida'', ''Uttar Pradesh''), (''Haridwar'', ''Uttarakhand''),
      (''Bawal'', ''Haryana''), (''Dharuhera'', ''Haryana'')]"

definition ensure_company :: "store \<Rightarrow> nat \<times> store" where
  "ensure_company db =
     (case filter (\<lambda>c. c_name c = ''Motherson'') (companies db) of
        c # _ \<Rightarrow> (c_id c, db)
      | [] \<Rightarrow>
          (let new = next_id (map c_id (companies db))
           in (new, db\<lparr>companies := companies db @ [\<lparr>c_id = new, c_name = ''Motherson''\<rparr>]\<rparr>)))"

text \<open>\<open>_ensure_division\<close>: \<open>division_name.upper()\<close> raises \<open>AttributeError\<close> on \<open>None\<close> and on
  an array; nothing in the function catches it.\<close>

definition ensure_division :: "nat \<Rightarrow> string field \<Rightarrow> store \<Rightarrow> py_error + (nat \<times> store)" where
  "ensure_division company_id division_name db =
     (case division_name of
        Val dn \<Rightarrow>
          (let normalized = (case map_of division_map (py_upper dn) of None \<Rightarrow> dn | Some full \<Rightarrow> full)
           in case filter (\<lambda>d. d_company_id d = company_id \<and> d_name d = normalized) (divisions db) of
                d # _ \<Rightarrow> Inr (d_id d, db)
              | [] \<Rightarrow>
                  (let new = next_id (map d_id (divisions db))
                   in Inr (new, db\<lparr>divisions := divisions db @
                        [\<lparr>d_id = new, d_company_id = company_id, d_name = normalized\<rparr>]\<rparr>)))
      | _ \<Rightarrow> Inl AttributeError)"

text \<open>
  The five insert helpers wrap their body in \<open>try\<close> / \<open>except Exception\<close>: whatever is raised
  inside (a method missing on the argument, a parameter that cannot be bound) is logged, the
  helper returns \<open>None\<close>, and the store is as it was.

  \<open>_insert_source\<close>: \<open>source_data.get\<close> raises when \<open>source_data\<close> is not a dictionary.
  \<open>INSERT OR IGNORE\<close>: an ignored insert leaves \<open>lastrowid\<close> of the fresh connection at 0. (The
  engine may also advance the sequence on an ignored insert; identifiers are used below as
  join keys only.)
\<close>

definition insert_source :: "source_data field \<Rightarrow> store \<Rightarrow> nat option \<times> store" where
  "insert_source source_data db =
     (case source_data of
        Val sd \<Rightarrow>
          (let url = field_get (sd_url sd) (Val ''unknown'');
               title = field_get (sd_title sd) (Val ''Untitled'');
               fetched_at = field_get (sd_fetched_at sd) Null;
               mime = field_get (sd_mime sd) (Val ''text/html'');
               publish_dt = field_get (sd_publish_dt sd) Null;
               source_type = field_get (sd_source_type sd) (Val ''web'')
           in if list_all bindable [url, title, fetched_at, mime, publish_dt, source_type] then
                (if list_ex (\<lambda>s. sql_eq (s_url s) (sql_text url)) (sources db) then (Some 0, db)
                 else
                   (let new = next_id (map s_id (sources db))
                    in (Some new, db\<lparr>sources := sources db @
                         [\<lparr>s_id = new, s_url = sql_text url, s_title = sql_text title,
                           s_fetched_at = sql_text fetched_at, s_mime_type = sql_text mime,
                           s_publish_date = sql_text publish_dt,
                           s_source_type = sql_text source_type\<rparr>]\<rparr>)))
              else (None, db))
      | _ \<Rightarrow> (None, db))"

text \<open>\<open>GraphBuilder._normalize_name\<close>, on \<open>None\<close> or a string.\<close>

definition gb_normalize_name :: "string option \<Rightarrow> string" where
  "gb_normalize_name name =
     (case name of
        None \<Rightarrow> []
      | Some n \<Rightarrow> if n = [] then [] else sub_whitespace (py_strip (py_lower n)))"

text \<open>\<open>_insert_facility\<close>: the lookup binds \<open>name\<close> and \<open>city\<close>; only when it finds no row are
  \<open>state\<close> and \<open>country\<close> bound, by the insert.\<close>

definition insert_facility :: "fac_data \<Rightarrow> nat \<Rightarrow> store \<Rightarrow> nat option \<times> store" where
  "insert_facility fac division_id db =
     (let name = field_get (fd_name fac) (Val []);
          city = field_get (fd_city fac) (Val [])
      in if list_all bindable [name, city] then
           (case filter (\<lambda>f. sql_eq (sql_lower (f_name f)) (sql_lower (sql_text name))
                            \<and> sql_eq (sql_lower (f_city f)) (sql_lower (sql_text city)))
                   (facilities db) of
              f # _ \<Rightarrow> (Some (f_id f), db)
            | [] \<Rightarrow>
                (let state = field_get (fd_state fac) Null;
                     country = field_get (fd_country fac) (Val ''India'')
                 in if list_all bindable [state, country] then
                      (let new = next_id (map f_id (facilities db))
                       in (Some new, db\<lparr>facilities := facilities db @
                            [\<lparr>f_id = new, f_division_id = Some division_id,
                              f_name = sql_text name,
                              f_city = sql_text (field_get (fd_city fac) Null),
                              f_state = sql_text state,
                              f_country = sql_text country,
                              f_normalized_name = Some (gb_normalize_name (sql_text name))\<rparr>]\<rparr>))
                    else (None, db)))
         else (None, db))"

text \<open>\<open>_insert_event\<close> on the dictionary \<open>build_graph\<close> passes: no \<open>confidence\<close> key, so 0.8.
  The caller does not look at the result.\<close>

definition insert_event ::
  "nat \<Rightarrow> string field \<Rightarrow> string field \<Rightarrow> string field \<Rightarrow> string field \<Rightarrow> store \<Rightarrow> store" where
  "insert_event facility_id event_type event_date status expansion_type db =
     (if list_all bindable [event_type, event_date, status, expansion_type] then
        db\<lparr>events := events db @
          [\<lparr>e_id = next_id (map e_id (events db)), e_facility_id = Some facility_id,
            e_event_type = sql_text event_type, e_event_date = sql_text event_date,
            e_status = sql_text status, e_expansion_type = sql_text expansion_type,
            e_confidence = Some (8 / 10)\<rparr>]\<rparr>
      else db)"

text \<open>\<open>_insert_evidence\<close>: \<open>text[:500]\<close> raises \<open>TypeError\<close> on \<open>None\<close>; the slice of an array is
  an array, which is not bound. \<open>source_id\<close> is \<open>None\<close> when the source insert failed, and
  is bound as \<open>NULL\<close>.\<close>

definition insert_evidence ::
  "nat option \<Rightarrow> string \<Rightarrow> nat \<Rightarrow> string field \<Rightarrow> rat \<Rightarrow> store \<Rightarrow> store" where
  "insert_evidence source_id entity_type entity_id text confidence db =
     (case text of
        Val t \<Rightarrow>
          db\<lparr>evidence := evidence db @
            [\<lparr>ev_id = next_id (map ev_id (evidence db)), ev_source_id = source_id,
              ev_entity_type = Some entity_type, ev_entity_id = Some entity_id,
              ev_text_snippet = Some (take 500 t), ev_confidence = Some confidence\<rparr>]\<rparr>
      | _ \<Rightarrow> db)"

text \<open>The truth value of \<open>job_data.get('is_factory_role')\<close>.\<close>

definition truthy_flag :: "bool field \<Rightarrow> bool" where
  "truthy_flag v = (case v of Val b \<Rightarrow> b | Array \<Rightarrow> True | _ \<Rightarrow> False)"

definition insert_job :: "job_data \<Rightarrow> nat option \<Rightarrow> store \<Rightarrow> nat option \<times> store" where
  "insert_job job source_id db =
     (let title = field_get (jd_title job) (Val []);
          location = field_get (jd_location job) (Val ''India'');
          posted_date = field_get (jd_posted_date job) Null;
          description = field_get (jd_description job) Null
      in if list_all bindable [title, location, posted_date, description] then
           (let new = next_id (map j_id (jobs db))
            in (Some new, db\<lparr>jobs := jobs db @
                 [\<lparr>j_id = new, j_facility_id = None,
                   j_title = sql_text title, j_location = sql_text location,
                   j_division_id = None,
                   j_is_factory_role =
                     Some (if truthy_flag (field_get (jd_is_factory_role job) Null) then 1 else 0),
                   j_source_id = source_id,
                   j_posted_date = sql_text posted_date,
                   j_description = sql_text description\<rparr>]\<rparr>))
         else (None, db))"

definition to_field :: "'a option \<Rightarrow> 'a field" where
  "to_field v = (case v of None \<Rightarrow> Null | Some x \<Rightarrow> Val x)"

definition extract_city_from_text :: "string \<Rightarrow> string option" where
  "extract_city_from_text text =
     find (\<lambda>city. str_contains (py_lower text) (py_lower city)) (map fst city_to_state)"

definition infer_division :: "string \<Rightarrow> string" where
  "infer_division text =
     (let text_upper = py_upper text
      in case find (\<lambda>entry. str_contains text_upper (fst entry)) division_map of
           Some entry \<Rightarrow> snd entry
         | None \<Rightarrow>
             if str_contains text_upper ''WIRING'' \<or> str_contains text_upper ''HARNESS''
               then ''Wiring Systems''
             else if str_contains text_upper ''VISION'' \<or> str_contains text_upper ''MIRROR''
               then ''Vision Systems''
             else if str_contains text_upper ''POLYMER'' then ''Polymers''
             else if str_contains text_upper ''SEATING'' then ''Seating Systems''
             else if str_contains text_upper ''LOGISTIC'' then ''Logistics''
             else ''Unknown'')"

text \<open>\<open>if source_id:\<close>, \<open>if facility_id:\<close>, \<open>if job_id:\<close>.\<close>

definition truthy_id :: "nat option \<Rightarrow> bool" where
  "truthy_id r = (case r of None \<Rightarrow> False | Some n \<Rightarrow> n \<noteq> 0)"

text \<open>
  The loops of \<open>build_graph\<close>. Each returns the statistics, or the exception that left
  the loop, together with the store as committed so far (every insert commits on its own).
\<close>

fun structured_facilities_loop ::
  "nat \<Rightarrow> nat option \<Rightarrow> fac_data list \<Rightarrow> stats \<Rightarrow> store \<Rightarrow> (py_error + stats) \<times> store" where
  "structured_facilities_loop company_id source_id [] stats db = (Inr stats, db)"
| "structured_facilities_loop company_id source_id (fac # rest) stats db =
     (case ensure_division company_id (field_get (fd_division fac) (Val ''Unknown'')) db of
        Inl e \<Rightarrow> (Inl e, db)
      | Inr (division_id, db1) \<Rightarrow>
          (case insert_facility fac division_id db1 of
             (Some facility_id, db2) \<Rightarrow>
               if facility_id \<noteq> 0 then
                 (let db3 = insert_event facility_id (Val ''operational'')
                              (field_get (fd_date fac) Null)
                              (field_get (fd_status fac) (Val ''operational''))
                              (field_get (fd_expansion_type fac) Null) db2;
                      db4 = insert_evidence source_id ''FACILITY'' facility_id
                              (field_get (fd_name fac) (Val [])) (9 / 10) db3
                  in structured_facilities_loop company_id source_id rest
                       (stats\<lparr>st_facilities := st_facilities stats + 1,
                              st_events := st_events stats + 1\<rparr>) db4)
               else structured_facilities_loop company_id source_id rest stats db2
           | (None, db2) \<Rightarrow> structured_facilities_loop company_id source_id rest stats db2))"

fun jobs_loop :: "nat option \<Rightarrow> job_data list \<Rightarrow> stats \<Rightarrow> store \<Rightarrow> stats \<times> store" where
  "jobs_loop source_id [] stats db = (stats, db)"
| "jobs_loop source_id (job # rest) stats db =
     (case insert_job job source_id db of
        (job_id, db1) \<Rightarrow>
          jobs_loop source_id rest
            (if truthy_id job_id then stats\<lparr>st_jobs := st_jobs stats + 1\<rparr> else stats) db1)"

text \<open>\<open>_extract_city_from_text\<close> calls \<open>text.lower()\<close>, outside any \<open>try\<close>.\<close>

fun entity_facilities_loop ::
  "nat \<Rightarrow> nat option \<Rightarrow> facility_entity list \<Rightarrow> stats \<Rightarrow> store \<Rightarrow> (py_error + stats) \<times> store" where
  "entity_facilities_loop company_id source_id [] stats db = (Inr stats, db)"
| "entity_facilities_loop company_id source_id (ent # rest) stats db =
     (case field_get (fe_text ent) (Val []) of
        Val text \<Rightarrow>
          (let city = extract_city_from_text text;
               state = (case city of None \<Rightarrow> None | Some c \<Rightarrow> map_of city_to_state c);
               division_name = infer_division text
           in case ensure_division company_id (Val division_name) db of
                Inl e \<Rightarrow> (Inl e, db)
              | Inr (division_id, db1) \<Rightarrow>
                  (let fac = \<lparr>fd_name = Val text, fd_division = Val division_name,
                              fd_city = to_field city, fd_state = to_field state,
                              fd_country = Missing, fd_status = Val ''operational'',
                              fd_date = Missing, fd_expansion_type = Missing\<rparr>
                   in case insert_facility fac division_id db1 of
                        (Some facility_id, db2) \<Rightarrow>
                          if facility_id \<noteq> 0 then
                            (let db3 = insert_event facility_id (Val ''operational'') Null
                                         (Val ''operational'') Null db2;
                                 db4 = insert_evidence source_id ''FACILITY'' facility_id
                                         (Val text) (8 / 10) db3
                             in entity_facilities_loop company_id source_id rest
                                  (stats\<lparr>st_facilities := st_facilities stats + 1,
                                         st_events := st_events stats + 1\<rparr>) db4)
                          else entity_facilities_loop company_id source_id rest stats db2
                      | (None, db2) \<Rightarrow>
                          entity_facilities_loop company_id source_id rest stats db2))
      | _ \<Rightarrow> (Inl AttributeError, db))"

definition job_of_entity :: "job_entity \<Rightarrow> job_data" where
  "job_of_entity ent =
     \<lparr>jd_title = field_get (je_text ent) (Val []),
      jd_location = field_get (je_location ent) (Val ''India''),
      jd_is_factory_role = field_get (je_is_factory_role ent) (Val True),
      jd_posted_date = Missing, jd_description = Missing\<rparr>"

text \<open>
  The two blocks of the loop body on \<open>source_data\<close>. The test \<open>'structured_facilities' in
  source_data\<close> raises \<open>TypeError\<close> on \<open>None\<close> and is false on an array. Iterating \<open>None\<close>
  raises \<open>TypeError\<close>; iterating an array yields numbers, on which \<open>fac_data.get\<close> raises
  \<open>AttributeError\<close>, whereas \<open>job_data.get\<close> is called inside \<open>_insert_job\<close>, which returns
  \<open>None\<close> for each of them.
\<close>

definition structured_part ::
  "nat \<Rightarrow> nat option \<Rightarrow> source_data field \<Rightarrow> stats \<Rightarrow> store \<Rightarrow> (py_error + stats) \<times> store" where
  "structured_part company_id source_id source_data stats db =
     (case source_data of
        Val sd \<Rightarrow>
          (case (case structured_facilities sd of
                   Missing \<Rightarrow> (Inr stats, db)
                 | Null \<Rightarrow> (Inl TypeError, db)
                 | Array \<Rightarrow> (Inl AttributeError, db)
                 | Val facs \<Rightarrow> structured_facilities_loop company_id source_id facs stats db) of
             (Inl e, db2) \<Rightarrow> (Inl e, db2)
           | (Inr stats2, db2) \<Rightarrow>
               (case structured_jobs sd of
                  Missing \<Rightarrow> (Inr stats2, db2)
                | Null \<Rightarrow> (Inl TypeError, db2)
                | Array \<Rightarrow> (Inr stats2, db2)
                | Val js \<Rightarrow>
                    (let (stats3, db3) = jobs_loop source_id js stats2 db2
                     in (Inr stats3, db3))))
      | Null \<Rightarrow> (Inl TypeError, db)
      | _ \<Rightarrow> (Inr stats, db))"

text \<open>The two loops on \<open>entities\<close>: \<open>entities.get\<close> raises \<open>AttributeError\<close> when \<open>entities\<close> is
  \<open>None\<close> or an array, and so does \<open>.get\<close> on each number an array in the place of a list
  yields.\<close>

definition entities_part ::
  "nat \<Rightarrow> nat option \<Rightarrow> entities field \<Rightarrow> stats \<Rightarrow> store \<Rightarrow> (py_error + stats) \<times> store" where
  "entities_part company_id source_id entities stats db =
     (case entities of
        Val ents \<Rightarrow>
          (case (case ent_facilities ents of
                   Missing \<Rightarrow> (Inr stats, db)
                 | Null \<Rightarrow> (Inl TypeError, db)
                 | Array \<Rightarrow> (Inl AttributeError, db)
                 | Val mentions \<Rightarrow>
                     entity_facilities_loop company_id source_id mentions stats db) of
             (Inl e, db2) \<Rightarrow> (Inl e, db2)
           | (Inr stats2, db2) \<Rightarrow>
               (case ent_job_titles ents of
                  Missing \<Rightarrow> (Inr stats2, db2)
                | Null \<Rightarrow> (Inl TypeError, db2)
                | Array \<Rightarrow> (Inl AttributeError, db2)
                | Val titles \<Rightarrow>
                    (let (stats3, db3) =
                           jobs_loop source_id (map job_of_entity titles) stats2 db2
                     in (Inr stats3, db3))))
      | _ \<Rightarrow> (Inl AttributeError, db))"

text \<open>The body of the loop over \<open>extracted_data\<close>; no statement of it is inside a \<open>try\<close>.\<close>

definition process_item :: "nat \<Rightarrow> item \<Rightarrow> stats \<Rightarrow> store \<Rightarrow> (py_error + stats) \<times> store" where
  "process_item company_id it stats db =
     (let source_data = field_get (it_source_data it) (Val source_absent);
          entities = field_get (it_entities it) (Val entities_absent);
          (source_id, db1) = insert_source source_data db;
          stats1 = (if truthy_id source_id then stats\<lparr>st_sources := st_sources stats + 1\<rparr>
                    else stats)
      in case structured_part company_id source_id source_data stats1 db1 of
           (Inl e, db2) \<Rightarrow> (Inl e, db2)
         | (Inr stats2, db2) \<Rightarrow> entities_part company_id source_id entities stats2 db2)"

fun items_loop :: "nat \<Rightarrow> item list \<Rightarrow> stats \<Rightarrow> store \<Rightarrow> (py_error + stats) \<times> store" where
  "items_loop company_id [] stats db = (Inr stats, db)"
| "items_loop company_id (it # rest) stats db =
     (case process_item company_id it stats db of
        (Inl e, db1) \<Rightarrow> (Inl e, db1)
      | (Inr stats1, db1) \<Rightarrow> items_loop company_id rest stats1 db1)"

definition build_graph :: "item list \<Rightarrow> store \<Rightarrow> (py_error + stats) \<times> store" where
  "build_graph extracted_data db =
     (let (company_id, db0) = ensure_company db
      in items_loop company_id extracted_data
           \<lparr>st_divisions = 0, st_facilities = 0, st_events = 0, st_jobs = 0, st_sources = 0\<rparr> db0)"

section \<open>Graph builder: queries\<close>

text \<open>\<open>LEFT JOIN\<close>: the matching rows, or one \<open>NULL\<close> row when none matches.\<close>

definition left_join :: "('a \<Rightarrow> bool) \<Rightarrow> 'a list \<Rightarrow> 'a option list" where
  "left_join P xs = (case filter P xs of [] \<Rightarrow> [None] | ys \<Rightarrow> map Some ys)"

text \<open>\<open>ORDER BY key DESC\<close>: \<open>NULL\<close> sorts below every text, so it comes last. SQL leaves the
  order among rows with equal keys to the engine; here they stay in the order of the scan.\<close>

fun date_lt :: "string option \<Rightarrow> string option \<Rightarrow> bool" where
  "date_lt None None = False"
| "date_lt None (Some b) = True"
| "date_lt (Some a) None = False"
| "date_lt (Some a) (Some b) = str_lt a b"

fun insert_desc :: "('a \<Rightarrow> string option) \<Rightarrow> 'a \<Rightarrow> 'a list \<Rightarrow> 'a list" where
  "insert_desc key r [] = [r]"
| "insert_desc key r (x # xs) =
     (if date_lt (key x) (key r) then r # x # xs else x # insert_desc key r xs)"

definition order_by_desc :: "('a \<Rightarrow> string option) \<Rightarrow> 'a list \<Rightarrow> 'a list" where
  "order_by_desc key rows = fold (insert_desc key) rows []"

text \<open>\<open>SELECT DISTINCT\<close> and \<open>GROUP BY\<close>: one row per distinct value, first occurrence first.\<close>

definition distinct_rows :: "'a list \<Rightarrow> 'a list" where
  "distinct_rows rows = rev (remdups (rev rows))"

text \<open>An optional query argument is used when it is truthy: a non-empty string.\<close>

definition given :: "string option \<Rightarrow> bool" where
  "given p = (case p of None \<Rightarrow> False | Some s \<Rightarrow> s \<noteq> [])"

text \<open>\<open>x or default\<close> on a nullable text or number.\<close>

definition or_str :: "string option \<Rightarrow> string \<Rightarrow> string" where
  "or_str v dflt = (case v of None \<Rightarrow> dflt | Some s \<Rightarrow> if s \<noteq> [] then s else dflt)"

definition or_num :: "rat option \<Rightarrow> rat \<Rightarrow> rat" where
  "or_num v dflt = (case v of None \<Rightarrow> dflt | Some q \<Rightarrow> if q \<noteq> 0 then q else dflt)"

subsection \<open>\<open>query_expansions\<close>\<close>

record expansion_row =
  r_facility :: "string option"
  r_city :: "string option"
  r_state :: "string option"
  r_division :: "string option"
  r_event_date :: "string option"
  r_expansion_type :: "string option"
  r_status :: "string option"
  r_confidence :: "rat option"
  r_url :: "string option"
  r_source_title :: "string option"
  r_publish_date :: "string option"

text \<open>The date bounds both statements append to their \<open>WHERE\<close> clause.\<close>

definition date_filter :: "string option \<Rightarrow> string option \<Rightarrow> event_row \<Rightarrow> bool" where
  "date_filter date_from date_to e =
     ((if given date_from
       then (case e_event_date e of None \<Rightarrow> True | Some d \<Rightarrow> str_le (the date_from) d)
       else True)
      \<and> (if given date_to
          then (case e_event_date e of None \<Rightarrow> True | Some d \<Rightarrow> str_le d (the date_to))
          else True))"

text \<open>The joins shared by both statements; \<open>sel\<close> is the \<open>WHERE\<close> condition on the event and
  \<open>exp_col\<close> the selected \<open>expansion_type\<close> column.\<close>

definition expansion_join ::
  "(event_row \<Rightarrow> bool) \<Rightarrow> (event_row \<Rightarrow> string option) \<Rightarrow> store \<Rightarrow> expansion_row list" where
  "expansion_join sel exp_col db =
     [\<lparr>r_facility = f_name f, r_city = f_city f, r_state = f_state f,
       r_division = map_option d_name d, r_event_date = e_event_date e,
       r_expansion_type = exp_col e, r_status = e_status e, r_confidence = e_confidence e,
       r_url = (case s of None \<Rightarrow> None | Some s' \<Rightarrow> s_url s'),
       r_source_title = (case s of None \<Rightarrow> None | Some s' \<Rightarrow> s_title s'),
       r_publish_date = (case s of None \<Rightarrow> None | Some s' \<Rightarrow> s_publish_date s')\<rparr>.
      e \<leftarrow> events db,
      f \<leftarrow> filter (\<lambda>f. sql_eq (e_facility_id e) (Some (f_id f))) (facilities db),
      d \<leftarrow> left_join (\<lambda>d. sql_eq (f_division_id f) (Some (d_id d))) (divisions db),
      ev \<leftarrow> left_join (\<lambda>ev. sql_eq (ev_entity_id ev) (Some (f_id f))
                            \<and> sql_eq (ev_entity_type ev) (Some ''FACILITY'')) (evidence db),
      s \<leftarrow> left_join (\<lambda>s. case ev of None \<Rightarrow> False
                                    | Some ev' \<Rightarrow> sql_eq (ev_source_id ev') (Some (s_id s))) (sources db),
      sel e]"

definition sql1 :: "string option \<Rightarrow> string option \<Rightarrow> store \<Rightarrow> expansion_row list" where
  "sql1 date_from date_to db =
     order_by_desc r_event_date (distinct_rows
       (expansion_join (\<lambda>e. e_expansion_type e \<noteq> None \<and> date_filter date_from date_to e)
          e_expansion_type db))"

definition sql2 :: "string option \<Rightarrow> string option \<Rightarrow> store \<Rightarrow> expansion_row list" where
  "sql2 date_from date_to db =
     order_by_desc r_event_date (distinct_rows
       (expansion_join (\<lambda>e. (sql_eq (e_status e) (Some ''planned'')
                               \<or> sql_eq (e_status e) (Some ''under-construction''))
                              \<and> date_filter date_from date_to e)
          (\<lambda>e. Some ''expansion'') db))"

record expansion_result =
  x_facility :: "string option"
  x_city :: "string option"
  x_state :: "string option"
  x_division :: "string option"
  x_event_date :: "string option"
  x_timeline :: string
  x_expansion_type :: string
  x_status :: string
  x_confidence :: rat
  x_url :: string
  x_source_title :: string
  x_publish_date :: "string option"

definition expansion_key :: "expansion_row \<Rightarrow> string \<times> string" where
  "expansion_key r =
     ((if given (r_facility r) then py_lower (the (r_facility r)) else []),
      (if given (r_city r) then py_lower (the (r_city r)) else []))"

definition expansion_result_of :: "expansion_row \<Rightarrow> expansion_result" where
  "expansion_result_of r =
     \<lparr>x_facility = r_facility r, x_city = r_city r, x_state = r_state r,
      x_division = r_division r, x_event_date = r_event_date r,
      x_timeline = or_str (r_event_date r) ''FY 2024-25'',
      x_expansion_type = or_str (r_expansion_type r) ''greenfield'',
      x_status = or_str (r_status r) ''planned'',
      x_confidence = or_num (r_confidence r) (7 / 10),
      x_url = or_str (r_url r) ''https://www.motherson.com'',
      x_source_title = or_str (r_source_title r) ''Motherson Document'',
      x_publish_date = r_publish_date r\<rparr>"

text \<open>One iteration of the deduplication loop over \<open>all_rows\<close>; the state is
  \<open>(seen, results)\<close>.\<close>

definition expansion_step ::
  "expansion_row \<Rightarrow> (string \<times> string) set \<times> expansion_result list
     \<Rightarrow> (string \<times> string) set \<times> expansion_result list" where
  "expansion_step r st =
     (let key = expansion_key r; seen = fst st; results = snd st
      in if key \<in> seen \<or> key = ([], []) then st
         else (insert key seen, results @ [expansion_result_of r]))"

definition expansion_loop ::
  "expansion_row list \<Rightarrow> (string \<times> string) set \<times> expansion_result list" where
  "expansion_loop all_rows = fold expansion_step all_rows ({}, [])"

definition query_expansions :: "string option \<Rightarrow> string option \<Rightarrow> store \<Rightarrow> expansion_result list" where
  "query_expansions date_from date_to db =
     snd (expansion_loop (sql1 date_from date_to db @ sql2 date_from date_to db))"

subsection \<open>\<open>query_facilities\<close>\<close>

text \<open>The \<open>GROUP BY\<close> key: \<open>f.id, f.name, f.city, f.state, f.country, d.name\<close>.\<close>

record facility_group =
  g_id :: nat
  g_name :: "string option"
  g_city :: "string option"
  g_state :: "string option"
  g_country :: "string option"
  g_division :: "string option"

definition facility_groups :: "string option \<Rightarrow> string option \<Rightarrow> store \<Rightarrow> facility_group list" where
  "facility_groups division state db =
     distinct_rows
       [\<lparr>g_id = f_id f, g_name = f_name f, g_city = f_city f, g_state = f_state f,
         g_country = f_country f, g_division = map_option d_name d\<rparr>.
        f \<leftarrow> facilities db,
        d \<leftarrow> left_join (\<lambda>d. sql_eq (f_division_id f) (Some (d_id d))) (divisions db),
        e \<leftarrow> left_join (\<lambda>e. sql_eq (Some (f_id f)) (e_facility_id e)) (events db),
        (if given division then sql_eq (map_option d_name d) division else True)
          \<and> (if given state then sql_eq (f_state f) state else True)]"

definition facility_events :: "nat \<Rightarrow> store \<Rightarrow> event_row list" where
  "facility_events fid db = filter (\<lambda>e. sql_eq (e_facility_id e) (Some fid)) (events db)"

text \<open>\<open>MIN\<close> and \<open>MAX\<close> skip \<open>NULL\<close> and are \<open>NULL\<close> when nothing is left.\<close>

definition sql_min :: "string option list \<Rightarrow> string option" where
  "sql_min vs = (case filter (\<lambda>v. v \<noteq> None) vs of
                   [] \<Rightarrow> None
                 | w # ws \<Rightarrow> fold (\<lambda>v m. if date_lt v m then v else m) ws w)"

definition sql_max :: "string option list \<Rightarrow> string option" where
  "sql_max vs = (case filter (\<lambda>v. v \<noteq> None) vs of
                   [] \<Rightarrow> None
                 | w # ws \<Rightarrow> fold (\<lambda>v m. if date_lt m v then v else m) ws w)"

text \<open>The correlated subqueries, each \<open>LIMIT 1\<close>: the first row of the scan.\<close>

definition status_subquery :: "nat \<Rightarrow> store \<Rightarrow> string option" where
  "status_subquery fid db =
     (case order_by_desc e_event_date (facility_events fid db) of
        [] \<Rightarrow> None | e # _ \<Rightarrow> e_status e)"

definition expansion_subquery :: "nat \<Rightarrow> store \<Rightarrow> string option" where
  "expansion_subquery fid db =
     (case filter (\<lambda>e. e_expansion_type e \<noteq> None) (facility_events fid db) of
        [] \<Rightarrow> None | e # _ \<Rightarrow> e_expansion_type e)"

text \<open>The sources joined to the evidence of a facility, in the order the engine produces
  them: it scans \<open>evidence\<close> and fetches the source of each row by its rowid.\<close>

definition evidence_sources :: "nat \<Rightarrow> store \<Rightarrow> source_row list" where
  "evidence_sources fid db =
     [s. ev \<leftarrow> evidence db, s \<leftarrow> sources db,
         sql_eq (ev_source_id ev) (Some (s_id s))
           \<and> sql_eq (ev_entity_id ev) (Some fid)
           \<and> sql_eq (ev_entity_type ev) (Some ''FACILITY'')]"

definition source_subquery :: "(source_row \<Rightarrow> string option) \<Rightarrow> nat \<Rightarrow> store \<Rightarrow> string option" where
  "source_subquery col fid db =
     (case evidence_sources fid db of [] \<Rightarrow> None | s # _ \<Rightarrow> col s)"

record facility_result =
  q_id :: nat
  q_name :: "string option"
  q_facility :: "string option"
  q_city :: "string option"
  q_state :: "string option"
  q_country :: "string option"
  q_division :: "string option"
  q_first_date :: "string option"
  q_last_event_date :: "string option"
  q_status :: string
  q_expansion_type :: "string option"
  q_url :: string
  q_source_title :: string
  q_publish_date :: "string option"
  q_confidence :: rat

definition facility_result_of :: "store \<Rightarrow> facility_group \<Rightarrow> facility_result" where
  "facility_result_of db g =
     \<lparr>q_id = g_id g, q_name = g_name g, q_facility = g_name g, q_city = g_city g,
      q_state = g_state g, q_country = g_country g, q_division = g_division g,
      q_first_date = sql_min (map e_event_date (facility_events (g_id g) db)),
      q_last_event_date = sql_max (map e_event_date (facility_events (g_id g) db)),
      q_status = or_str (status_subquery (g_id g) db) ''operational'',
      q_expansion_type = expansion_subquery (g_id g) db,
      q_url = or_str (source_subquery s_url (g_id g) db)
                ''https://www.motherson.com/contact/address-directory'',
      q_source_title = or_str (source_subquery s_title (g_id g) db) ''Motherson Address Directory'',
      q_publish_date = source_subquery s_publish_date (g_id g) db,
      q_confidence = 9 / 10\<rparr>"

definition query_facilities ::
  "string option \<Rightarrow> string option \<Rightarrow> string option \<Rightarrow> store \<Rightarrow> facility_result list" where
  "query_facilities division state status db =
     filter (\<lambda>result. if given status then py_lower (q_status result) = py_lower (the status)
                      else True)
       (map (facility_result_of db) (facility_groups division state db))"

text \<open>A facility has evidence when some \<open>evidence\<close> row of type \<open>FACILITY\<close> joins a
  \<open>sources\<close> row to it.\<close>

definition has_evidence :: "nat \<Rightarrow> store \<Rightarrow> bool" where
  "has_evidence fid db =
     list_ex (\<lambda>s. list_ex (\<lambda>ev. ev_source_id ev = Some (s_id s) \<and> ev_entity_id ev = Some fid
                                   \<and> ev_entity_type ev = Some ''FACILITY'') (evidence db))
       (sources db)"

section \<open>Auxiliary notions for the properties\<close>

text \<open>Rule A as the specification words it: identical non-empty normalized names, and
  intersecting location tokens or both locations empty with a name longer than 5.\<close>

definition rule_a_claimed :: "string \<Rightarrow> string \<Rightarrow> string \<Rightarrow> string \<Rightarrow> bool" where
  "rule_a_claimed norm_name1 loc1 norm_name2 loc2 =
     (norm_name1 = norm_name2 \<and> norm_name1 \<noteq> [] \<and>
      (set (py_split (py_lower loc1)) \<inter> set (py_split (py_lower loc2)) \<noteq> {}
       \<or> (loc1 = [] \<and> loc2 = [] \<and> length norm_name1 > 5)))"

definition total_merge_count :: "pydict list \<Rightarrow> rat" where
  "total_merge_count rs = sum_list (map merge_count rs)"

definition group_sizes :: "(pyval \<times> pydict list) list \<Rightarrow> nat" where
  "group_sizes gs = sum_list (map (\<lambda>grp. length (snd grp)) gs)"

text \<open>The deduplication key of a returned row, computed as the loop computes it.\<close>

definition result_key :: "expansion_result \<Rightarrow> string \<times> string" where
  "result_key res =
     ((if given (x_facility res) then py_lower (the (x_facility res)) else []),
      (if given (x_city res) then py_lower (the (x_city res)) else []))"

text \<open>Dictionaries with no keys, to build example items from.\<close>

definition fac_absent :: fac_data where
  "fac_absent = \<lparr>fd_name = Missing, fd_division = Missing, fd_city = Missing, fd_state = Missing,
                  fd_country = Missing, fd_status = Missing, fd_date = Missing,
                  fd_expansion_type = Missing\<rparr>"

definition job_absent :: job_data where
  "job_absent = \<lparr>jd_title = Missing, jd_location = Missing, jd_is_factory_role = Missing,
                  jd_posted_date = Missing, jd_description = Missing\<rparr>"

text \<open>An item carrying the structured facilities \<open>facs\<close> from the source \<open>url\<close>.\<close>

definition facilities_item :: "string \<Rightarrow> fac_data list \<Rightarrow> item" where
  "facilities_item url facs =
     \<lparr>it_source_data = Val (source_absent\<lparr>sd_url := Val url,
                                          structured_facilities := Val facs\<rparr>),
      it_entities = Missing\<rparr>"

text \<open>Two facility rows that differ only by letter case; the second has a tagged event.\<close>

definition case_store :: store where
  "case_store =
     \<lparr>companies = [], divisions = [], sources = [],
      facilities =
        [\<lparr>f_id = 1, f_division_id = None, f_name = Some ''Pune Plant'', f_city = Some ''Pune'',
          f_state = None, f_country = None, f_normalized_name = None\<rparr>,
         \<lparr>f_id = 2, f_division_id = None, f_name = Some ''PUNE PLANT'', f_city = Some ''PUNE'',
          f_state = None, f_country = None, f_normalized_name = None\<rparr>],
      events =
        [\<lparr>e_id = 1, e_facility_id = Some 1, e_event_type = None,
          e_event_date = Some ''2024-03-01'', e_status = Some ''planned'',
          e_expansion_type = None, e_confidence = None\<rparr>,
         \<lparr>e_id = 2, e_facility_id = Some 2, e_event_type = None,
          e_event_date = Some ''2024-01-01'', e_status = Some ''planned'',
          e_expansion_type = Some ''brownfield'', e_confidence = None\<rparr>],
      evidence = [], jobs = []\<rparr>"

definition anonymous_store :: store where
  "anonymous_store =
     snd (build_graph
            [facilities_item ''u''
               [fac_absent\<lparr>fd_status := Val ''planned'', fd_expansion_type := Val ''greenfield''\<rparr>,
                fac_absent\<lparr>fd_name := Val ''Sanand Plant'', fd_city := Val ''Sanand'',
                           fd_status := Val ''planned''\<rparr>]]
            empty_store)"

definition planned_store :: store where
  "planned_store =
     snd (build_graph
            [facilities_item ''u''
               [fac_absent\<lparr>fd_name := Val ''Sanand Plant'', fd_division := Val ''MSWIL'',
                           fd_city := Val ''Sanand'', fd_state := Val ''Gujarat'',
                           fd_status := Val ''planned''\<rparr>]]
            empty_store)"

text \<open>
  Candidates as the extraction pipeline shapes them: \<open>name\<close>, \<open>city\<close>, \<open>state\<close> and the date
  fields hold a string or \<open>None\<close>, \<open>confidence\<close> holds a number or \<open>None\<close>.
\<close>

definition str_or_none :: "pyval \<Rightarrow> bool" where
  "str_or_none v = (case v of PNone \<Rightarrow> True | PStr s \<Rightarrow> True | _ \<Rightarrow> False)"

definition num_or_none :: "pyval \<Rightarrow> bool" where
  "num_or_none v = (case v of PNone \<Rightarrow> True | PNum q \<Rightarrow> True | _ \<Rightarrow> False)"

definition typed_item :: "string \<times> pyval \<Rightarrow> bool" where
  "typed_item item =
     ((if fst item \<in> set (''name'' # ''city'' # ''state'' # date_keys)
       then str_or_none (snd item) else True)
      \<and> (if fst item = ''confidence'' then num_or_none (snd item) else True))"

definition typed_candidate :: "pydict \<Rightarrow> bool" where
  "typed_candidate d = list_all typed_item d"

text \<open>The test of the inner loop on a pair: the anchor \<open>fac1\<close> absorbs \<open>fac2\<close>.\<close>

definition pair_merges :: "pydict \<Rightarrow> pydict \<Rightarrow> bool" where
  "pair_merges fac1 fac2 =
     (bind_err (normalize_location (dict_get fac1 ''city'' PNone) (dict_get fac1 ''state'' PNone))
        (\<lambda>loc1.
      bind_err (normalize_location (dict_get fac2 ''city'' PNone) (dict_get fac2 ''state'' PNone))
        (\<lambda>loc2.
      should_merge (dict_get fac1 ''name'' (PStr [])) loc1
                   (dict_get fac2 ''name'' (PStr [])) loc2 default_threshold))
      = Inr True)"

text \<open>Candidate \<open>i\<close> of a partition matches no other candidate of it: no earlier candidate
  absorbs it and it absorbs no later one.\<close>

definition unmatched :: "pydict list \<Rightarrow> nat \<Rightarrow> bool" where
  "unmatched xs i =
     list_all (\<lambda>j. (if j < i then \<not> pair_merges (xs ! j) (xs ! i) else True)
                  \<and> (if i < j then \<not> pair_merges (xs ! i) (xs ! j) else True))
       [0..<length xs]"

text \<open>What \<open>_merge_facility_group\<close> writes last, on a group of size one.\<close>

definition marked_single :: "pydict \<Rightarrow> pydict" where
  "marked_single c = dict_set (dict_set c ''was_merged'' (PBool True)) ''merge_count'' (PNum 1)"

text \<open>Three example candidates: two spellings of one site, and another site of the same
  division.\<close>

definition cand_sanand_plant :: pydict where
  "cand_sanand_plant =
     [(''name'', PStr ''Sanand Plant''), (''division'', PStr ''Wiring Systems''),
      (''city'', PStr ''Sanand''), (''state'', PStr ''Gujarat'')]"

definition cand_pune_plant :: pydict where
  "cand_pune_plant =
     [(''name'', PStr ''Pune Plant''), (''division'', PStr ''Wiring Systems''),
      (''city'', PStr ''Pune''), (''state'', PStr ''Maharashtra'')]"

definition cand_sanand_unit :: pydict where
  "cand_sanand_unit =
     [(''name'', PStr ''Sanand Unit''), (''division'', PStr ''Wiring Systems''),
      (''city'', PStr ''Sanand''), (''state'', PStr ''Gujarat'')]"

definition dresden_item :: item where
  "dresden_item =
     \<lparr>it_source_data = Val (source_absent\<lparr>sd_url := Val ''u''\<rparr>),
      it_entities = Val (entities_absent\<lparr>ent_facilities :=
                      Val [\<lparr>fe_text = Val ''SMR mirror plant Dresden''\<rparr>]\<rparr>)\<rparr>"











definition job_clean :: "job_data \<Rightarrow> bool" where
  "job_clean job =
     list_all bindable
       [field_get (jd_title job) (Val []), field_get (jd_location job) (Val ''India''),
        field_get (jd_posted_date job) Null, field_get (jd_description job) Null]"







section \<open>Properties of the entity resolver\<close>

lemma bind_err_Inr_iff: "bind_err m f = Inr y \<longleftrightarrow> (\<exists>x. m = Inr x \<and> f x = Inr y)"
  by (cases m) (simp_all add: bind_err_def)

lemma map_of_dict_set: "map_of (dict_set d k v) = (map_of d)(k \<mapsto> v)"
  by (induction d) (auto simp: fun_eq_iff)

lemma dict_set_fresh: "k \<notin> fst ` set d \<Longrightarrow> dict_set d k v = d @ [(k, v)]"
  by (induction d) auto

lemma dict_update_distinct:
  "distinct (map fst (acc @ d)) \<Longrightarrow> dict_update acc d = acc @ d"
proof (induction d arbitrary: acc)
  case Nil
  then show ?case by (simp add: dict_update_def)
next
  case (Cons kv d)
  have fresh: "fst kv \<notin> fst ` set acc" using Cons.prems by auto
  have "dict_update acc (kv # d) = dict_update (dict_set acc (fst kv) (snd kv)) d"
    by (simp add: dict_update_def)
  also have "\<dots> = dict_update (acc @ [kv]) d"
    using fresh by (simp add: dict_set_fresh)
  also have "\<dots> = (acc @ [kv]) @ d"
    using Cons.prems by (intro Cons.IH) simp
  finally show ?case by simp
qed

lemma merge_facility_group_single:
  "merge_facility_group [c] =
     Inr (dict_set (dict_set (dict_update [] c) ''was_merged'' (PBool True)) ''merge_count'' (PNum 1))"
  by (simp add: merge_facility_group_def bind_err_def)

lemma merge_count_group:
  assumes "merge_facility_group g = Inr m"
  shows "merge_count m = of_nat (length g)"
proof (cases g)
  case Nil
  with assms show ?thesis by (simp add: merge_facility_group_def)
next
  case (Cons first others)
  with assms obtain merged where
    "m = dict_set (dict_set merged ''was_merged'' (PBool True)) ''merge_count'' (PNum (of_nat (length g)))"
    by (auto simp: merge_facility_group_def bind_err_Inr_iff)
  then show ?thesis by (simp add: merge_count_def map_of_dict_set)
qed

lemma inner_step_cases:
  assumes "inner_step a p (g, m) = Inr (g', m')"
  shows "(g' = g \<and> m' = m) \<or> (fst p \<notin> m \<and> fst a < fst p \<and> g' = g @ [snd p] \<and> m' = insert (fst p) m)"
  using assms
  by (auto simp: inner_step_def Let_def bind_err_Inr_iff split: if_splits)

lemma inner_loop_inv:
  "fold_err (inner_step a) ps (g, m) = Inr (g', m') \<Longrightarrow> finite m \<Longrightarrow>
     finite m' \<and> m \<subseteq> m' \<and> m' \<subseteq> m \<union> fst ` set ps
     \<and> length g' = length g + card (m' - m) \<and> (\<forall>j \<in> m' - m. fst a < j)"
proof (induction ps arbitrary: g m)
  case Nil
  then show ?case by simp
next
  case (Cons p ps)
  from Cons.prems(1) obtain g1 m1 where
    step: "inner_step a p (g, m) = Inr (g1, m1)" and
    rest: "fold_err (inner_step a) ps (g1, m1) = Inr (g', m')"
    by (auto simp: bind_err_Inr_iff)
  from inner_step_cases [OF step]
  show ?case
  proof
    assume "g1 = g \<and> m1 = m"
    with Cons.IH [of g m] rest Cons.prems(2) show ?thesis by auto
  next
    assume new: "fst p \<notin> m \<and> fst a < fst p \<and> g1 = g @ [snd p] \<and> m1 = insert (fst p) m"
    then have fin1: "finite m1" using Cons.prems(2) by simp
    from Cons.IH [OF rest fin1] have
      ih: "finite m'" "m1 \<subseteq> m'" "m' \<subseteq> m1 \<union> fst ` set ps"
          "length g' = length g1 + card (m' - m1)" "\<forall>j \<in> m' - m1. fst a < j"
      by auto
    have split: "m' - m = insert (fst p) (m' - m1)"
      using new ih(2) by auto
    have "fst p \<notin> m' - m1" using new by auto
    then have "card (m' - m) = Suc (card (m' - m1))"
      using split ih(1) by simp
    then have len: "length g' = length g + card (m' - m)"
      using ih(4) new by simp
    have sub1: "m \<subseteq> m'" using new ih(2) by auto
    have sub2: "m' \<subseteq> m \<union> fst ` set (p # ps)" using new ih(3) by auto
    have gt: "\<forall>j \<in> m' - m. fst a < j"
    proof
      fix j assume "j \<in> m' - m"
      then have "j = fst p \<or> j \<in> m' - m1" using split by auto
      then show "fst a < j" using new ih(5) by auto
    qed
    show ?thesis using ih(1) sub1 sub2 len gt by blast
  qed
qed


lemma outer_step_cases:
  assumes "outer_step xs (k, y) (m, r) = Inr (m', r')" and "finite m"
  shows "(k \<in> m \<and> m' = m \<and> r' = r)
         \<or> (k \<notin> m \<and> finite m' \<and> m \<subseteq> m' \<and> m' \<subseteq> m \<union> {0..<length xs}
              \<and> (\<forall>j \<in> m' - m. k < j)
              \<and> (\<exists>mf. r' = r @ [mf] \<and> merge_count mf = of_nat (Suc (card (m' - m)))))"
proof (cases "k \<in> m")
  case True
  with assms(1) show ?thesis by (simp add: outer_step_def)
next
  case False
  with assms(1) obtain g mf where
    inner: "fold_err (inner_step (k, y)) (enumerate 0 xs) ([y], m) = Inr (g, m')" and
    mg: "merge_facility_group g = Inr mf" and r': "r' = r @ [mf]"
    by (auto simp: outer_step_def Let_def bind_err_Inr_iff)
  from inner_loop_inv [OF inner assms(2)] have
    inv: "finite m'" "m \<subseteq> m'" "m' \<subseteq> m \<union> fst ` set (enumerate 0 xs)"
         "length g = length [y] + card (m' - m)" "\<forall>j \<in> m' - m. fst (k, y) < j"
    by auto
  have idx: "fst ` set (enumerate 0 xs) = {0..<length xs}"
    by (metis add_0 list.set_map map_fst_enumerate set_upt)
  have "merge_count mf = of_nat (Suc (card (m' - m)))"
    using merge_count_group [OF mg] inv(4) by simp
  then show ?thesis
    using False inv idx r' by auto
qed

lemma outer_loop_inv:
  "fold_err (outer_step xs) (enumerate k ys) (m, r) = Inr (m', r') \<Longrightarrow>
   k + length ys = length xs \<Longrightarrow> finite m \<Longrightarrow> m \<subseteq> {0..<length xs} \<Longrightarrow>
     total_merge_count r' + of_nat (card ({0..<k} \<union> m)) = total_merge_count r + of_nat (length xs)
     \<and> length r' + card ({0..<k} \<union> m) \<le> length r + length xs"
proof (induction ys arbitrary: k m r)
  case Nil
  then have "{0..<k} \<union> m = {0..<length xs}" by auto
  with Nil show ?case by simp
next
  case (Cons y ys)
  from Cons.prems(1) obtain m1 r1 where
    step: "outer_step xs (k, y) (m, r) = Inr (m1, r1)" and
    rest: "fold_err (outer_step xs) (enumerate (Suc k) ys) (m1, r1) = Inr (m', r')"
    by (auto simp: bind_err_Inr_iff)
  have len: "Suc k + length ys = length xs" using Cons.prems(2) by simp
  from outer_step_cases [OF step Cons.prems(3)]
  show ?case
  proof
    assume skip: "k \<in> m \<and> m1 = m \<and> r1 = r"
    then have "{0..<Suc k} \<union> m = {0..<k} \<union> m"
      by (auto simp: less_Suc_eq)
    with Cons.IH [OF _ len Cons.prems(3) Cons.prems(4)] rest skip
    show ?thesis by simp
  next
    assume anchor: "k \<notin> m \<and> finite m1 \<and> m \<subseteq> m1 \<and> m1 \<subseteq> m \<union> {0..<length xs}
              \<and> (\<forall>j \<in> m1 - m. k < j)
              \<and> (\<exists>mf. r1 = r @ [mf] \<and> merge_count mf = of_nat (Suc (card (m1 - m))))"
    then obtain mf where r1: "r1 = r @ [mf]"
      and mc: "merge_count mf = of_nat (Suc (card (m1 - m)))" by blast
    have fin1: "finite m1" and sub1: "m1 \<subseteq> {0..<length xs}"
      using anchor Cons.prems(4) by auto
    have gt: "k < j" if "j \<in> m1" "j \<notin> m" for j
      using anchor that by blast
    have knm: "k \<notin> m" and mm1: "m \<subseteq> m1" using anchor by auto
    have cover: "{0..<Suc k} \<union> m1 = insert k (({0..<k} \<union> m) \<union> (m1 - m))"
      using mm1 by (auto simp: less_Suc_eq)
    have disj: "({0..<k} \<union> m) \<inter> (m1 - m) = {}"
      using gt by fastforce
    have knot: "k \<notin> ({0..<k} \<union> m) \<union> (m1 - m)"
      using knm gt by fastforce
    have fins: "finite ({0..<k} \<union> m)" "finite (m1 - m)"
      using Cons.prems(3) fin1 by auto
    have "card (insert k (({0..<k} \<union> m) \<union> (m1 - m)))
            = Suc (card (({0..<k} \<union> m) \<union> (m1 - m)))"
      using knot fins by (intro card_insert_disjoint) auto
    also have "card (({0..<k} \<union> m) \<union> (m1 - m)) = card ({0..<k} \<union> m) + card (m1 - m)"
      using fins disj by (rule card_Un_disjoint)
    finally have card_eq:
      "card ({0..<Suc k} \<union> m1) = Suc (card ({0..<k} \<union> m) + card (m1 - m))"
      using cover by simp
    from Cons.IH [OF rest len fin1 sub1] have
      ih1: "total_merge_count r' + of_nat (card ({0..<Suc k} \<union> m1))
              = total_merge_count r1 + of_nat (length xs)" and
      ih2: "length r' + card ({0..<Suc k} \<union> m1) \<le> length r1 + length xs"
      by auto
    have tot1: "total_merge_count r1 = total_merge_count r + of_nat (Suc (card (m1 - m)))"
      using r1 mc by (simp add: total_merge_count_def)
    have c1: "total_merge_count r' + of_nat (card ({0..<k} \<union> m))
                = total_merge_count r + of_nat (length xs)"
      using ih1 tot1 card_eq by simp
    have c2: "length r' + card ({0..<k} \<union> m) \<le> length r + length xs"
      using ih2 r1 card_eq by simp
    show ?thesis using c1 c2 by simp
  qed
qed

lemma resolve_division_count:
  assumes "resolve_division xs r = Inr r'"
  shows "total_merge_count r' = total_merge_count r + of_nat (length xs)
         \<and> length r' \<le> length r + length xs"
proof -
  from assms obtain m' where
    "fold_err (outer_step xs) (enumerate 0 xs) ({}, r) = Inr (m', r')"
    by (auto simp: resolve_division_def bind_err_Inr_iff)
  from outer_loop_inv [OF this] show ?thesis by simp
qed

lemma group_append_sizes: "group_sizes (group_append gs dv fac) = Suc (group_sizes gs)"
  by (induction gs dv fac rule: group_append.induct) (simp_all add: group_sizes_def)

lemma division_groups_fold_sizes:
  "group_sizes (fold (\<lambda>fac groups. group_append groups (dict_get fac ''division'' (PStr ''Unknown'')) fac) fs gs)
     = group_sizes gs + length fs"
  by (induction fs arbitrary: gs) (simp_all add: group_append_sizes)

lemma division_groups_sizes: "group_sizes (division_groups fs) = length fs"
  by (simp add: division_groups_def division_groups_fold_sizes) (simp add: group_sizes_def)

lemma resolve_groups_count:
  "fold_err (\<lambda>grp resolved. resolve_division (snd grp) resolved) gs r = Inr r' \<Longrightarrow>
     total_merge_count r' = total_merge_count r + of_nat (group_sizes gs)
     \<and> length r' \<le> length r + group_sizes gs"
proof (induction gs arbitrary: r)
  case Nil
  then show ?case by (simp add: group_sizes_def)
next
  case (Cons grp gs)
  from Cons.prems obtain r1 where
    d: "resolve_division (snd grp) r = Inr r1" and
    rest: "fold_err (\<lambda>grp resolved. resolve_division (snd grp) resolved) gs r1 = Inr r'"
    by (auto simp: bind_err_Inr_iff)
  from resolve_division_count [OF d] Cons.IH [OF rest]
  show ?case by (simp add: group_sizes_def)
qed

lemma fold_err_total:
  assumes "\<And>x s. x \<in> set xs \<Longrightarrow> P s \<Longrightarrow> \<exists>s'. f x s = Inr s' \<and> P s'" and "P s"
  shows "\<exists>s'. fold_err f xs s = Inr s' \<and> P s'"
  using assms
proof (induction xs arbitrary: s)
  case Nil
  then show ?case by simp
next
  case (Cons x xs)
  from Cons.prems(1) [of x s] Cons.prems(2) obtain s1 where
    s1: "f x s = Inr s1" "P s1" by auto
  from Cons.IH [of s1] Cons.prems(1) s1(2) obtain s' where
    "fold_err f xs s1 = Inr s'" "P s'" by auto
  with s1 show ?case by (auto simp: bind_err_def)
qed

lemma typed_dict_get:
  assumes "typed_candidate d" and "str_or_none dflt"
    and "k \<in> set (''name'' # ''city'' # ''state'' # date_keys)"
  shows "str_or_none (dict_get d k dflt)"
proof (cases "map_of d k")
  case None
  with assms(2) show ?thesis by (simp add: dict_get_def)
next
  case (Some v)
  then have "(k, v) \<in> set d" by (rule map_of_SomeD)
  with assms(1) have "typed_item (k, v)" by (simp add: typed_candidate_def list_all_iff)
  with assms(3) have "str_or_none v" by (simp add: typed_item_def split: if_splits)
  with Some show ?thesis by (simp add: dict_get_def)
qed

lemma typed_dict_get_confidence:
  assumes "typed_candidate d"
  shows "num_or_none (dict_get d ''confidence'' PNone)"
proof (cases "map_of d ''confidence''")
  case None
  then show ?thesis by (simp add: dict_get_def num_or_none_def)
next
  case (Some v)
  then have "(''confidence'', v) \<in> set d" by (rule map_of_SomeD)
  with assms have "typed_item (''confidence'', v)" by (simp add: typed_candidate_def list_all_iff)
  then have "num_or_none v" by (simp add: typed_item_def)
  with Some show ?thesis by (simp add: dict_get_def)
qed

lemma typed_dict_set:
  "typed_candidate d \<Longrightarrow> typed_item (k, v) \<Longrightarrow> typed_candidate (dict_set d k v)"
  by (induction d) (auto simp: typed_candidate_def)

lemma location_part_total: "str_or_none v \<Longrightarrow> \<exists>p. location_part v = Inr p"
  by (cases v) (simp_all add: location_part_def str_or_none_def truthy_def)

lemma normalize_location_total:
  "str_or_none c \<Longrightarrow> str_or_none s \<Longrightarrow> \<exists>l. normalize_location c s = Inr l"
  using location_part_total [of c] location_part_total [of s]
  by (auto simp: normalize_location_def bind_err_def)

lemma normalize_name_total: "str_or_none v \<Longrightarrow> \<exists>n. normalize_name v = Inr n"
  by (cases v) (simp_all add: normalize_name_def str_or_none_def truthy_def)

lemma should_merge_total:
  "str_or_none n1 \<Longrightarrow> str_or_none n2 \<Longrightarrow> \<exists>b. should_merge n1 l1 n2 l2 thr = Inr b"
  using normalize_name_total [of n1] normalize_name_total [of n2]
  by (auto simp: should_merge_def bind_err_def split: option.splits)

lemma inner_step_total:
  assumes "typed_candidate (snd a)" and "typed_candidate (snd p)"
    and "list_all typed_candidate (fst st)"
  shows "\<exists>st'. inner_step a p st = Inr st' \<and> list_all typed_candidate (fst st')"
proof (cases "fst p \<le> fst a \<or> fst p \<in> snd st")
  case True
  with assms(3) show ?thesis by (simp add: inner_step_def Let_def)
next
  case False
  have str: "str_or_none PNone" "str_or_none (PStr [])" by (simp_all add: str_or_none_def)
  obtain loc1 where loc1:
    "normalize_location (dict_get (snd a) ''city'' PNone) (dict_get (snd a) ''state'' PNone) = Inr loc1"
    using normalize_location_total typed_dict_get [OF assms(1) str(1)] by force
  obtain loc2 where loc2:
    "normalize_location (dict_get (snd p) ''city'' PNone) (dict_get (snd p) ''state'' PNone) = Inr loc2"
    using normalize_location_total typed_dict_get [OF assms(2) str(1)] by force
  obtain b where b:
    "should_merge (dict_get (snd a) ''name'' (PStr [])) loc1
       (dict_get (snd p) ''name'' (PStr [])) loc2 default_threshold = Inr b"
    using should_merge_total typed_dict_get [OF assms(1) str(2)] typed_dict_get [OF assms(2) str(2)]
    by force
  show ?thesis
    using False loc1 loc2 b assms(2,3)
    by (simp add: inner_step_def Let_def bind_err_def)
qed

lemma merge_item_total:
  assumes "typed_item item" and "typed_candidate merged"
  shows "\<exists>m'. merge_item item merged = Inr m' \<and> typed_candidate m'"
proof -
  obtain key val where item: "item = (key, val)" by (cases item)
  define m1 where "m1 = (if \<not> truthy (dict_get merged key PNone) \<and> truthy val
                then dict_set merged key val else merged)"
  have t1: "typed_candidate m1"
    using assms item by (simp add: m1_def typed_dict_set)
  define step2 where "step2 =
     (if key \<in> set date_keys \<and> truthy val then
        (if \<not> truthy (dict_get m1 key PNone) then Inr (dict_set m1 key val)
         else bind_err (py_lt val (dict_get m1 key PNone))
                (\<lambda>b. Inr (if b then dict_set m1 key val else m1)))
      else Inr m1)"
  have "\<exists>m2. step2 = Inr m2 \<and> typed_candidate m2"
  proof (cases "key \<in> set date_keys \<and> truthy val \<and> truthy (dict_get m1 key PNone)")
    case True
    then have "str_or_none val"
      using assms(1) item by (simp add: typed_item_def)
    with True obtain s where s: "val = PStr s"
      by (cases val) (simp_all add: str_or_none_def truthy_def)
    have "str_or_none (dict_get m1 key PNone)"
      using True by (intro typed_dict_get [OF t1]) (simp_all add: str_or_none_def)
    with True obtain t where t: "dict_get m1 key PNone = PStr t"
      by (cases "dict_get m1 key PNone") (simp_all add: str_or_none_def truthy_def)
    show ?thesis
      using True s t t1 assms(1) item
      by (simp add: step2_def py_lt_def bind_err_def typed_dict_set)
  next
    case False
    then show ?thesis
      using t1 assms(1) item by (auto simp: step2_def typed_dict_set)
  qed
  then obtain m2 where m2: "step2 = Inr m2" and t2: "typed_candidate m2" by blast
  define step3 where "step3 =
     (if key = ''confidence'' \<and> truthy val then
        (if \<not> truthy (dict_get m2 key PNone) then Inr (dict_set m2 key val)
         else bind_err (py_lt (dict_get m2 key PNone) val)
                (\<lambda>b. Inr (if b then dict_set m2 key val else m2)))
      else Inr m2)"
  have "\<exists>m3. step3 = Inr m3 \<and> typed_candidate m3"
  proof (cases "key = ''confidence'' \<and> truthy val \<and> truthy (dict_get m2 key PNone)")
    case True
    then have "num_or_none val"
      using assms(1) item by (simp add: typed_item_def)
    with True obtain q where q: "val = PNum q"
      by (cases val) (simp_all add: num_or_none_def truthy_def)
    have "num_or_none (dict_get m2 key PNone)"
      using True typed_dict_get_confidence [OF t2] by simp
    with True obtain q' where q': "dict_get m2 key PNone = PNum q'"
      by (cases "dict_get m2 key PNone") (simp_all add: num_or_none_def truthy_def)
    show ?thesis
      using True q q' t2 assms(1) item
      by (simp add: step3_def py_lt_def num_of_def bind_err_def typed_dict_set)
  next
    case False
    then show ?thesis
      using t2 assms(1) item by (auto simp: step3_def typed_dict_set)
  qed
  then obtain m3 where m3: "step3 = Inr m3" and t3: "typed_candidate m3" by blast
  have "merge_item item merged = Inr m3"
    using m2 m3 unfolding merge_item_def item step3_def step2_def m1_def
    by (simp add: Let_def bind_err_def)
  with t3 show ?thesis by blast
qed

lemma dict_update_typed:
  "typed_candidate acc \<Longrightarrow> typed_candidate d \<Longrightarrow> typed_candidate (dict_update acc d)"
proof (induction d arbitrary: acc)
  case Nil
  then show ?case by (simp add: dict_update_def)
next
  case (Cons kv d)
  have "typed_candidate (dict_set acc (fst kv) (snd kv))"
    using Cons.prems by (intro typed_dict_set) (simp_all add: typed_candidate_def)
  moreover have "typed_candidate d" using Cons.prems(2) by (simp add: typed_candidate_def)
  ultimately have "typed_candidate (dict_update (dict_set acc (fst kv) (snd kv)) d)"
    by (rule Cons.IH)
  then show ?case by (simp add: dict_update_def)
qed

lemma merge_facility_group_total:
  assumes "g \<noteq> []" and "list_all typed_candidate g"
  shows "\<exists>m. merge_facility_group g = Inr m"
proof -
  from assms(1) obtain first others where g: "g = first # others" by (cases g) auto
  have base: "typed_candidate (dict_update [] first)"
    using assms(2) g by (intro dict_update_typed) (simp_all add: typed_candidate_def)
  have "\<exists>m. fold_err (\<lambda>fac merged. fold_err merge_item fac merged) others (dict_update [] first) = Inr m
            \<and> typed_candidate m"
  proof (rule fold_err_total [where P = typed_candidate])
    fix fac s assume fac: "fac \<in> set others" and s: "typed_candidate s"
    have "typed_candidate fac" using fac assms(2) g by (simp add: list_all_iff)
    then have items: "\<And>x. x \<in> set fac \<Longrightarrow> typed_item x"
      by (simp add: typed_candidate_def list_all_iff)
    show "\<exists>s'. fold_err merge_item fac s = Inr s' \<and> typed_candidate s'"
      by (rule fold_err_total [where P = typed_candidate])
         (use items merge_item_total s in auto)
  qed (rule base)
  then show ?thesis
    by (auto simp: merge_facility_group_def g bind_err_def)
qed

lemma inner_loop_total:
  assumes "typed_candidate (snd a)" and "list_all typed_candidate (map snd ps)"
    and "list_all typed_candidate g" and "g \<noteq> []"
  shows "\<exists>g' m'. fold_err (inner_step a) ps (g, m) = Inr (g', m')
            \<and> list_all typed_candidate g' \<and> g' \<noteq> []"
proof -
  have "\<exists>st'. fold_err (inner_step a) ps (g, m) = Inr st'
          \<and> (list_all typed_candidate (fst st') \<and> fst st' \<noteq> [])"
  proof (rule fold_err_total [where P = "\<lambda>st. list_all typed_candidate (fst st) \<and> fst st \<noteq> []"])
    fix p and st :: "pydict list \<times> nat set"
    assume p: "p \<in> set ps" and st: "list_all typed_candidate (fst st) \<and> fst st \<noteq> []"
    have tp: "typed_candidate (snd p)" using p assms(2) by (auto simp: list_all_iff)
    from inner_step_total [OF assms(1) tp] st obtain st' where
      st': "inner_step a p st = Inr st'" "list_all typed_candidate (fst st')" by blast
    obtain g0 m0 where st0: "st = (g0, m0)" by (cases st)
    obtain g1 m1 where st1: "st' = (g1, m1)" by (cases st')
    from inner_step_cases [of a p g0 m0 g1 m1] st'(1) st st0 st1
    have "fst st' \<noteq> []" by auto
    with st' show "\<exists>s'. inner_step a p st = Inr s' \<and> list_all typed_candidate (fst s') \<and> fst s' \<noteq> []"
      by blast
  qed (use assms in simp)
  then show ?thesis by auto
qed

lemma outer_step_total:
  assumes "list_all typed_candidate xs" and "typed_candidate (snd a)"
  shows "\<exists>st'. outer_step xs a st = Inr st'"
proof (cases "fst a \<in> fst st")
  case True
  then show ?thesis by (simp add: outer_step_def Let_def)
next
  case False
  have ps: "list_all typed_candidate (map snd (enumerate 0 xs))"
    using assms(1) by (auto simp: list_all_iff enumerate_eq_zip dest: set_zip_rightD)
  from inner_loop_total [OF assms(2) ps, of "[snd a]" "fst st"] assms(2)
  obtain g' m' where
    inner: "fold_err (inner_step a) (enumerate 0 xs) ([snd a], fst st) = Inr (g', m')"
    and g': "list_all typed_candidate g'" "g' \<noteq> []" by auto
  from merge_facility_group_total [OF g'(2) g'(1)] obtain mf where
    "merge_facility_group g' = Inr mf" by blast
  with inner False show ?thesis
    by (simp add: outer_step_def Let_def bind_err_def)
qed

lemma resolve_division_total:
  assumes "list_all typed_candidate xs"
  shows "\<exists>r'. resolve_division xs r = Inr r'"
proof -
  have "\<exists>st'. fold_err (outer_step xs) (enumerate 0 xs) ({}, r) = Inr st' \<and> True"
  proof (rule fold_err_total [where P = "\<lambda>_. True"])
    fix a st assume "a \<in> set (enumerate 0 xs)"
    then have "(fst a, snd a) \<in> set (zip [0..<length xs] xs)"
      by (simp add: enumerate_eq_zip)
    then have "snd a \<in> set xs" by (rule set_zip_rightD)
    with assms have "typed_candidate (snd a)" by (simp add: list_all_iff)
    from outer_step_total [OF assms this]
    show "\<exists>s'. outer_step xs a st = Inr s' \<and> True" by simp
  qed simp
  then show ?thesis by (auto simp: resolve_division_def bind_err_def)
qed

lemma group_append_members:
  "(dv', xs) \<in> set (group_append gs dv fac) \<Longrightarrow>
     set xs \<subseteq> insert fac (\<Union>(set ` snd ` set gs))"
  by (induction gs dv fac rule: group_append.induct) (auto split: if_splits)

lemma division_groups_fold_members:
  "grp \<in> set (fold (\<lambda>fac groups. group_append groups (dict_get fac ''division'' (PStr ''Unknown'')) fac) fs gs)
     \<Longrightarrow> set (snd grp) \<subseteq> set fs \<union> \<Union>(set ` snd ` set gs)"
proof (induction fs arbitrary: gs)
  case Nil
  then show ?case by auto
next
  case (Cons f fs)
  let ?gs1 = "group_append gs (dict_get f ''division'' (PStr ''Unknown'')) f"
  from Cons.IH [of ?gs1] Cons.prems
  have "set (snd grp) \<subseteq> set fs \<union> \<Union>(set ` snd ` set ?gs1)" by simp
  moreover have "\<Union>(set ` snd ` set ?gs1) \<subseteq> insert f (\<Union>(set ` snd ` set gs))"
  proof
    fix x assume "x \<in> \<Union>(set ` snd ` set ?gs1)"
    then obtain dv' xs where in1: "(dv', xs) \<in> set ?gs1" and x: "x \<in> set xs" by force
    from group_append_members [OF in1] x
    show "x \<in> insert f (\<Union>(set ` snd ` set gs))" by blast
  qed
  ultimately show ?case by auto
qed

lemma division_groups_members:
  "grp \<in> set (division_groups fs) \<Longrightarrow> set (snd grp) \<subseteq> set fs"
  using division_groups_fold_members [of grp fs "[]"] by (simp add: division_groups_def)

lemma resolve_facilities_total:
  assumes "list_all typed_candidate facs"
  shows "\<exists>resolved. resolve_facilities facs = Inr resolved"
proof (cases "facs = []")
  case True
  then show ?thesis by (simp add: resolve_facilities_def)
next
  case False
  have "\<exists>r'. fold_err (\<lambda>grp resolved. resolve_division (snd grp) resolved)
               (division_groups facs) [] = Inr r' \<and> True"
  proof (rule fold_err_total [where P = "\<lambda>_. True"])
    fix grp r assume "grp \<in> set (division_groups facs)"
    then have "set (snd grp) \<subseteq> set facs" by (rule division_groups_members)
    with assms have "list_all typed_candidate (snd grp)" by (auto simp: list_all_iff)
    from resolve_division_total [OF this]
    show "\<exists>s'. resolve_division (snd grp) r = Inr s' \<and> True" by simp
  qed simp
  with False show ?thesis by (simp add: resolve_facilities_def)
qed

lemma resolve_facilities_count:
  assumes "resolve_facilities facs = Inr resolved"
  shows "sum_list (map merge_count resolved) = of_nat (length facs)
         \<and> length resolved \<le> length facs"
proof (cases "facs = []")
  case True
  with assms show ?thesis by (simp add: resolve_facilities_def)
next
  case False
  with assms have
    "fold_err (\<lambda>grp resolved. resolve_division (snd grp) resolved)
       (division_groups facs) [] = Inr resolved"
    by (simp add: resolve_facilities_def)
  from resolve_groups_count [OF this] show ?thesis
    by (simp add: division_groups_sizes total_merge_count_def)
qed

text \<open>
  Claim C9. The output of \<open>resolve_facilities\<close> partitions its input: whenever the call
  returns, the \<open>merge_count\<close> fields of the returned records add up to the number of
  input candidates, and there are at most as many records as candidates. The call does
  return on every list of candidates whose name, city, state and date fields hold strings
  or \<open>None\<close> and whose confidence holds a number or \<open>None\<close>.
\<close>

theorem resolve_facilities_partition:
  "(\<forall>resolved. resolve_facilities facs = Inr resolved \<longrightarrow>
      sum_list (map merge_count resolved) = of_nat (length facs)
      \<and> length resolved \<le> length facs)
   \<and> (list_all typed_candidate facs \<longrightarrow> (\<exists>resolved. resolve_facilities facs = Inr resolved))"
proof (rule conjI)
  show "\<forall>resolved. resolve_facilities facs = Inr resolved \<longrightarrow>
      sum_list (map merge_count resolved) = of_nat (length facs)
      \<and> length resolved \<le> length facs"
    using resolve_facilities_count [of facs] by blast
  show "list_all typed_candidate facs \<longrightarrow> (\<exists>resolved. resolve_facilities facs = Inr resolved)"
    using resolve_facilities_total [of facs] by blast
qed

theorem resolve_facilities_partition_witness:
  "list_all typed_candidate [cand_sanand_plant, cand_pune_plant, cand_sanand_unit]
   \<and> resolve_facilities [cand_sanand_plant, cand_pune_plant, cand_sanand_unit]
       = Inr [[(''name'', PStr ''Sanand Plant''), (''division'', PStr ''Wiring Systems''),
               (''city'', PStr ''Sanand''), (''state'', PStr ''Gujarat''),
               (''was_merged'', PBool True), (''merge_count'', PNum 2)],
              [(''name'', PStr ''Pune Plant''), (''division'', PStr ''Wiring Systems''),
               (''city'', PStr ''Pune''), (''state'', PStr ''Maharashtra''),
               (''was_merged'', PBool True), (''merge_count'', PNum 1)]]
   \<and> sum_list (map merge_count
         [[(''name'', PStr ''Sanand Plant''), (''division'', PStr ''Wiring Systems''),
           (''city'', PStr ''Sanand''), (''state'', PStr ''Gujarat''),
           (''was_merged'', PBool True), (''merge_count'', PNum 2)],
          [(''name'', PStr ''Pune Plant''), (''division'', PStr ''Wiring Systems''),
           (''city'', PStr ''Pune''), (''state'', PStr ''Maharashtra''),
           (''was_merged'', PBool True), (''merge_count'', PNum 1)]]) = 3"
proof -
  let ?facs = "[cand_sanand_plant, cand_pune_plant, cand_sanand_unit]"
  let ?res = "[[(''name'', PStr ''Sanand Plant''), (''division'', PStr ''Wiring Systems''),
               (''city'', PStr ''Sanand''), (''state'', PStr ''Gujarat''),
               (''was_merged'', PBool True), (''merge_count'', PNum 2)],
              [(''name'', PStr ''Pune Plant''), (''division'', PStr ''Wiring Systems''),
               (''city'', PStr ''Pune''), (''state'', PStr ''Maharashtra''),
               (''was_merged'', PBool True), (''merge_count'', PNum 1)]]"
  have typed: "list_all typed_candidate ?facs"
    by code_simp
  have run: "resolve_facilities ?facs = Inr ?res"
    by code_simp
  have "sum_list (map merge_count ?res) = of_nat (length ?facs)"
    using resolve_facilities_partition [of ?facs] run by blast
  with typed run show ?thesis by simp
qed

lemma py_lower_Nil_iff: "py_lower s = [] \<longleftrightarrow> s = []"
  by (simp add: py_lower_def)

lemma normalize_name_PStr: "normalize_name (PStr s) = Inr (normalize_str s)"
  by (simp add: normalize_name_def truthy_def normalize_str_def)

lemma rule2_needs_locations:
  "rule2 n1 l1 n2 l2 thr \<Longrightarrow> l1 \<noteq> [] \<and> l2 \<noteq> []"
  by (auto simp: rule2_def Let_def split: if_splits)

text \<open>
  Claim C2, as the code has it. Rule 1 of \<open>should_merge\<close> returns \<open>True\<close> exactly when the
  normalized names are identical and non-empty and either one of the two locations is
  empty and the name is longer than 5 characters, or both locations are non-empty and their
  token sets intersect; \<open>should_merge\<close> merges exactly when Rule 1 returns \<open>True\<close> or Rule 2
  holds.
\<close>

theorem should_merge_rule_a:
  "(rule1 (normalize_str a) l1 (normalize_str b) l2 = Some True) =
     (normalize_str a = normalize_str b \<and> normalize_str a \<noteq> [] \<and>
      ((l1 = [] \<or> l2 = []) \<and> length (normalize_str a) > 5
       \<or> l1 \<noteq> [] \<and> l2 \<noteq> []
          \<and> set (py_split (py_lower l1)) \<inter> set (py_split (py_lower l2)) \<noteq> {}))
   \<and> should_merge (PStr a) l1 (PStr b) l2 thr =
       Inr (rule1 (normalize_str a) l1 (normalize_str b) l2 = Some True
            \<or> rule2 (normalize_str a) l1 (normalize_str b) l2 thr)"
proof (intro conjI)
  show "(rule1 (normalize_str a) l1 (normalize_str b) l2 = Some True) =
     (normalize_str a = normalize_str b \<and> normalize_str a \<noteq> [] \<and>
      ((l1 = [] \<or> l2 = []) \<and> length (normalize_str a) > 5
       \<or> l1 \<noteq> [] \<and> l2 \<noteq> []
          \<and> set (py_split (py_lower l1)) \<inter> set (py_split (py_lower l2)) \<noteq> {}))"
    by (auto simp add: rule1_def py_lower_Nil_iff Let_def)
next
  let ?r1 = "rule1 (normalize_str a) l1 (normalize_str b) l2"
  let ?r2 = "rule2 (normalize_str a) l1 (normalize_str b) l2 thr"
  have sm: "should_merge (PStr a) l1 (PStr b) l2 thr =
              (case ?r1 of Some b \<Rightarrow> Inr b | None \<Rightarrow> Inr ?r2)"
    by (simp add: should_merge_def normalize_name_PStr bind_err_def)
  show "should_merge (PStr a) l1 (PStr b) l2 thr = Inr (?r1 = Some True \<or> ?r2)"
  proof (cases ?r1)
    case None
    with sm show ?thesis by simp
  next
    case (Some verdict)
    show ?thesis
    proof (cases verdict)
      case True
      with Some sm show ?thesis by simp
    next
      case False
      with Some have "l1 = [] \<or> l2 = []"
        by (auto simp: rule1_def py_lower_Nil_iff Let_def split: if_splits)
      with rule2_needs_locations [of "normalize_str a" l1 "normalize_str b" l2 thr]
      have "\<not> ?r2" by blast
      with Some False sm show ?thesis by simp
    qed
  qed
qed

theorem should_merge_rule_a_witness:
  "rule1 (normalize_str ''Sanand Plant'') ''sanand gujarat''
         (normalize_str ''Sanand Unit'') ''sanand gujarat'' = Some True
   \<and> should_merge (PStr ''Sanand Plant'') ''sanand gujarat''
         (PStr ''Sanand Unit'') ''sanand gujarat'' default_threshold = Inr True"
proof -
  have fires: "rule1 (normalize_str ''Sanand Plant'') ''sanand gujarat''
                 (normalize_str ''Sanand Unit'') ''sanand gujarat'' = Some True"
    by code_simp
  have "should_merge (PStr ''Sanand Plant'') ''sanand gujarat''
          (PStr ''Sanand Unit'') ''sanand gujarat'' default_threshold =
        Inr (rule1 (normalize_str ''Sanand Plant'') ''sanand gujarat''
               (normalize_str ''Sanand Unit'') ''sanand gujarat'' = Some True
             \<or> rule2 (normalize_str ''Sanand Plant'') ''sanand gujarat''
                  (normalize_str ''Sanand Unit'') ''sanand gujarat'' default_threshold)"
    by (rule conjunct2 [OF should_merge_rule_a])
  with fires show ?thesis by simp
qed

text \<open>
  With identical normalized names of six characters, one empty and one non-empty location,
  Rule 1 merges, Rule 2 does not apply, and the rule as the specification words it says no.
\<close>

theorem should_merge_rule_a_counterexample:
  "normalize_str ''Sanand Plant'' = normalize_str ''sanand''
   \<and> normalize_str ''Sanand Plant'' \<noteq> []
   \<and> rule1 (normalize_str ''Sanand Plant'') [] (normalize_str ''sanand'') ''sanand gujarat''
       = Some True
   \<and> should_merge (PStr ''Sanand Plant'') [] (PStr ''sanand'') ''sanand gujarat''
       default_threshold = Inr True
   \<and> \<not> rule_a_claimed (normalize_str ''Sanand Plant'') [] (normalize_str ''sanand'')
         ''sanand gujarat''
   \<and> \<not> rule2 (normalize_str ''Sanand Plant'') [] (normalize_str ''sanand'') ''sanand gujarat''
         default_threshold"
  by code_simp

lemma inner_step_merges:
  assumes "inner_step a p (g, m) = Inr (g', m')"
  shows "(g' = g \<and> m' = m)
         \<or> (pair_merges (snd a) (snd p) \<and> fst a < fst p \<and> m' = insert (fst p) m)"
  using assms
  by (auto simp: inner_step_def pair_merges_def Let_def bind_err_Inr_iff split: if_splits)

lemma inner_loop_unmatched:
  "fold_err (inner_step a) ps (g, m) = Inr (g', m') \<Longrightarrow>
   (\<And>p. p \<in> set ps \<Longrightarrow> fst a < fst p \<Longrightarrow> \<not> pair_merges (snd a) (snd p)) \<Longrightarrow>
     g' = g \<and> m' = m"
proof (induction ps arbitrary: g m)
  case Nil
  then show ?case by simp
next
  case (Cons p ps)
  from Cons.prems(1) obtain g1 m1 where
    step: "inner_step a p (g, m) = Inr (g1, m1)" and
    rest: "fold_err (inner_step a) ps (g1, m1) = Inr (g', m')"
    by (auto simp: bind_err_Inr_iff)
  from inner_step_merges [OF step] Cons.prems(2) [of p]
  have same: "g1 = g \<and> m1 = m" by auto
  from Cons.IH [OF rest] Cons.prems(2) same show ?case by simp
qed

lemma inner_loop_keeps_out:
  "fold_err (inner_step a) ps (g, m) = Inr (g', m') \<Longrightarrow> i \<notin> m \<Longrightarrow>
   (\<And>p. p \<in> set ps \<Longrightarrow> fst p = i \<Longrightarrow> \<not> pair_merges (snd a) (snd p)) \<Longrightarrow>
     i \<notin> m'"
proof (induction ps arbitrary: g m)
  case Nil
  then show ?case by simp
next
  case (Cons p ps)
  from Cons.prems(1) obtain g1 m1 where
    step: "inner_step a p (g, m) = Inr (g1, m1)" and
    rest: "fold_err (inner_step a) ps (g1, m1) = Inr (g', m')"
    by (auto simp: bind_err_Inr_iff)
  from inner_step_merges [OF step] Cons.prems(2) Cons.prems(3) [of p]
  have "i \<notin> m1" by auto
  from Cons.IH [OF rest this] Cons.prems(3) show ?case by simp
qed

lemma enumerate_member: "p \<in> set (enumerate 0 xs) \<Longrightarrow> fst p < length xs \<and> snd p = xs ! fst p"
  by (cases p) (simp add: in_set_enumerate_eq)

lemma unmatched_before: "unmatched xs i \<Longrightarrow> j < i \<Longrightarrow> i < length xs \<Longrightarrow> \<not> pair_merges (xs ! j) (xs ! i)"
  by (auto simp: unmatched_def list_all_iff)

lemma unmatched_after: "unmatched xs i \<Longrightarrow> i < j \<Longrightarrow> j < length xs \<Longrightarrow> \<not> pair_merges (xs ! i) (xs ! j)"
  by (auto simp: unmatched_def list_all_iff)

lemma outer_step_grows:
  assumes "outer_step xs a (m, r) = Inr (m', r')"
  shows "set r \<subseteq> set r'"
  using assms
  by (auto simp: outer_step_def Let_def bind_err_Inr_iff split: if_splits)

lemma outer_step_unmatched:
  assumes step: "outer_step xs (k, xs ! k) (m, r) = Inr (m', r')"
    and k: "k \<le> i" and i: "i < length xs" "i \<notin> m"
    and un: "unmatched xs i" and dist: "distinct (map fst (xs ! i))"
  shows "(k = i \<longrightarrow> marked_single (xs ! i) \<in> set r') \<and> (k < i \<longrightarrow> i \<notin> m')"
proof (cases "k \<in> m")
  case True
  with step have "m' = m" by (simp add: outer_step_def)
  with True i(2) show ?thesis by auto
next
  case False
  with step obtain g mf where
    inner: "fold_err (inner_step (k, xs ! k)) (enumerate 0 xs) ([xs ! k], m) = Inr (g, m')" and
    mg: "merge_facility_group g = Inr mf" and r': "r' = r @ [mf]"
    by (auto simp: outer_step_def Let_def bind_err_Inr_iff)
  show ?thesis
  proof (intro conjI impI)
    assume ki: "k = i"
    have "g = [xs ! k] \<and> m' = m"
    proof (rule inner_loop_unmatched [OF inner])
      fix p assume p: "p \<in> set (enumerate 0 xs)" and lt: "fst (k, xs ! k) < fst p"
      from enumerate_member [OF p] lt ki unmatched_after [OF un, of "fst p"]
      show "\<not> pair_merges (snd (k, xs ! k)) (snd p)" by simp
    qed
    then have "mf = marked_single (xs ! i)"
      using mg ki dist dict_update_distinct [of "[]" "xs ! i"]
      by (simp add: merge_facility_group_single marked_single_def)
    with r' show "marked_single (xs ! i) \<in> set r'" by simp
  next
    assume lt: "k < i"
    show "i \<notin> m'"
    proof (rule inner_loop_keeps_out [OF inner i(2)])
      fix p assume p: "p \<in> set (enumerate 0 xs)" and pi: "fst p = i"
      from enumerate_member [OF p] pi unmatched_before [OF un lt i(1)]
      show "\<not> pair_merges (snd (k, xs ! k)) (snd p)" by simp
    qed
  qed
qed

lemma outer_loop_grows:
  "fold_err (outer_step xs) ps (m, r) = Inr (m', r') \<Longrightarrow> set r \<subseteq> set r'"
proof (induction ps arbitrary: m r)
  case Nil
  then show ?case by simp
next
  case (Cons p ps)
  from Cons.prems obtain m1 r1 where
    step: "outer_step xs p (m, r) = Inr (m1, r1)" and
    rest: "fold_err (outer_step xs) ps (m1, r1) = Inr (m', r')"
    by (auto simp: bind_err_Inr_iff)
  from outer_step_grows [OF step] Cons.IH [OF rest] show ?case by blast
qed

lemma outer_loop_unmatched:
  "fold_err (outer_step xs) (enumerate k (drop k xs)) (m, r) = Inr (m', r') \<Longrightarrow>
   k \<le> i \<Longrightarrow> i < length xs \<Longrightarrow> i \<notin> m \<Longrightarrow> unmatched xs i \<Longrightarrow>
   distinct (map fst (xs ! i)) \<Longrightarrow>
     marked_single (xs ! i) \<in> set r'"
proof (induction "i - k" arbitrary: k m r)
  case 0
  then have ki: "k = i" by simp
  with "0.prems"(3) have dr: "drop k xs = xs ! k # drop (Suc k) xs"
    by (simp add: Cons_nth_drop_Suc)
  from "0.prems"(1) obtain m1 r1 where
    step: "outer_step xs (k, xs ! k) (m, r) = Inr (m1, r1)" and
    rest: "fold_err (outer_step xs) (enumerate (Suc k) (drop (Suc k) xs)) (m1, r1) = Inr (m', r')"
    unfolding dr by (auto simp: bind_err_Inr_iff)
  from outer_step_unmatched [OF step "0.prems"(2,3,4,5,6)] ki
  have "marked_single (xs ! i) \<in> set r1" by simp
  with outer_loop_grows [OF rest] show ?case by blast
next
  case (Suc d)
  then have lt: "k < i" by simp
  with Suc.prems(3) have dr: "drop k xs = xs ! k # drop (Suc k) xs"
    by (simp add: Cons_nth_drop_Suc)
  from Suc.prems(1) obtain m1 r1 where
    step: "outer_step xs (k, xs ! k) (m, r) = Inr (m1, r1)" and
    rest: "fold_err (outer_step xs) (enumerate (Suc k) (drop (Suc k) xs)) (m1, r1) = Inr (m', r')"
    unfolding dr by (auto simp: bind_err_Inr_iff)
  from outer_step_unmatched [OF step Suc.prems(2,3,4,5,6)] lt
  have out: "i \<notin> m1" by simp
  have d: "d = i - Suc k" using Suc.hyps(2) by simp
  from Suc.hyps(1) [OF d rest _ Suc.prems(3) out Suc.prems(5,6)] lt
  show ?case by simp
qed

lemma resolve_division_unmatched:
  assumes "resolve_division xs r = Inr r'" and "i < length xs" and "unmatched xs i"
    and "distinct (map fst (xs ! i))"
  shows "marked_single (xs ! i) \<in> set r'"
proof -
  from assms(1) obtain m' where
    "fold_err (outer_step xs) (enumerate 0 (drop 0 xs)) ({}, r) = Inr (m', r')"
    by (auto simp: resolve_division_def bind_err_Inr_iff)
  from outer_loop_unmatched [OF this _ assms(2) _ assms(3,4)] show ?thesis by simp
qed

lemma resolve_division_grows:
  assumes "resolve_division xs r = Inr r'"
  shows "set r \<subseteq> set r'"
proof -
  from assms obtain m' where
    "fold_err (outer_step xs) (enumerate 0 xs) ({}, r) = Inr (m', r')"
    by (auto simp: resolve_division_def bind_err_Inr_iff)
  then show ?thesis by (rule outer_loop_grows)
qed

lemma resolve_groups_grows:
  "fold_err (\<lambda>grp resolved. resolve_division (snd grp) resolved) gs r = Inr r' \<Longrightarrow>
     set r \<subseteq> set r'"
proof (induction gs arbitrary: r)
  case Nil
  then show ?case by simp
next
  case (Cons grp gs)
  from Cons.prems obtain r1 where
    d: "resolve_division (snd grp) r = Inr r1" and
    rest: "fold_err (\<lambda>grp resolved. resolve_division (snd grp) resolved) gs r1 = Inr r'"
    by (auto simp: bind_err_Inr_iff)
  from resolve_division_grows [OF d] Cons.IH [OF rest] show ?case by blast
qed

lemma resolve_groups_unmatched:
  "fold_err (\<lambda>grp resolved. resolve_division (snd grp) resolved) gs r = Inr r' \<Longrightarrow>
   grp \<in> set gs \<Longrightarrow> i < length (snd grp) \<Longrightarrow> unmatched (snd grp) i \<Longrightarrow>
   distinct (map fst (snd grp ! i)) \<Longrightarrow>
     marked_single (snd grp ! i) \<in> set r'"
proof (induction gs arbitrary: r)
  case Nil
  then show ?case by simp
next
  case (Cons g0 gs)
  from Cons.prems(1) obtain r1 where
    d: "resolve_division (snd g0) r = Inr r1" and
    rest: "fold_err (\<lambda>grp resolved. resolve_division (snd grp) resolved) gs r1 = Inr r'"
    by (auto simp: bind_err_Inr_iff)
  show ?case
  proof (cases "grp = g0")
    case True
    with resolve_division_unmatched [OF d] Cons.prems(3,4,5)
    have "marked_single (snd grp ! i) \<in> set r1" by simp
    with resolve_groups_grows [OF rest] show ?thesis by blast
  next
    case False
    with Cons.prems(2) have "grp \<in> set gs" by simp
    from Cons.IH [OF rest this Cons.prems(3,4,5)] show ?thesis .
  qed
qed

lemma division_groups_cover_fold:
  "c \<in> set fs \<union> \<Union>(set ` snd ` set gs) \<Longrightarrow>
     \<exists>grp \<in> set (fold (\<lambda>fac groups. group_append groups (dict_get fac ''division'' (PStr ''Unknown'')) fac) fs gs).
        c \<in> set (snd grp)"
proof (induction fs arbitrary: gs)
  case Nil
  then show ?case by auto
next
  case (Cons f fs)
  let ?gs1 = "group_append gs (dict_get f ''division'' (PStr ''Unknown'')) f"
  have keep: "\<Union>(set ` snd ` set gs) \<subseteq> \<Union>(set ` snd ` set (group_append gs dv f))" for dv
    by (induction gs dv f rule: group_append.induct) auto
  have new: "f \<in> \<Union>(set ` snd ` set (group_append gs dv f))" for dv
    by (induction gs dv f rule: group_append.induct) auto
  have "c \<in> set fs \<union> \<Union>(set ` snd ` set ?gs1)"
    using Cons.prems keep [of "dict_get f ''division'' (PStr ''Unknown'')"]
      new [of "dict_get f ''division'' (PStr ''Unknown'')"] by auto
  from Cons.IH [OF this] show ?case by simp
qed

lemma division_groups_cover:
  "c \<in> set facs \<Longrightarrow> \<exists>grp \<in> set (division_groups facs). \<exists>i < length (snd grp). snd grp ! i = c"
  using division_groups_cover_fold [of c facs "[]"]
  by (auto simp: division_groups_def in_set_conv_nth)

text \<open>
  Claim C5, as the code has it. A candidate that matches no other candidate of its division
  partition is returned with every field and value in place and the two fields
  \<open>was_merged = True\<close> and \<open>merge_count = 1\<close> set; the empty input gives the empty output.
\<close>

theorem singleton_group_marked:
  assumes "resolve_facilities facs = Inr resolved"
    and "grp \<in> set (division_groups facs)" and "i < length (snd grp)"
    and "unmatched (snd grp) i" and "distinct (map fst (snd grp ! i))"
  shows "marked_single (snd grp ! i) \<in> set resolved
         \<and> map_of (marked_single (snd grp ! i)) ''was_merged'' = Some (PBool True)
         \<and> map_of (marked_single (snd grp ! i)) ''merge_count'' = Some (PNum 1)
         \<and> (\<forall>k. k \<noteq> ''was_merged'' \<and> k \<noteq> ''merge_count'' \<longrightarrow>
               map_of (marked_single (snd grp ! i)) k = map_of (snd grp ! i) k)
         \<and> resolve_facilities [] = Inr []"
proof -
  have "facs \<noteq> []" using assms(2) by (auto simp: division_groups_def)
  with assms(1) have
    "fold_err (\<lambda>grp resolved. resolve_division (snd grp) resolved)
       (division_groups facs) [] = Inr resolved"
    by (simp add: resolve_facilities_def)
  from resolve_groups_unmatched [OF this assms(2,3,4,5)]
  have "marked_single (snd grp ! i) \<in> set resolved" .
  then show ?thesis
    by (simp add: marked_single_def map_of_dict_set resolve_facilities_def)
qed

theorem singleton_group_marked_witness:
  "resolve_facilities [cand_sanand_plant, cand_pune_plant, cand_sanand_unit]
       = Inr [[(''name'', PStr ''Sanand Plant''), (''division'', PStr ''Wiring Systems''),
               (''city'', PStr ''Sanand''), (''state'', PStr ''Gujarat''),
               (''was_merged'', PBool True), (''merge_count'', PNum 2)],
              [(''name'', PStr ''Pune Plant''), (''division'', PStr ''Wiring Systems''),
               (''city'', PStr ''Pune''), (''state'', PStr ''Maharashtra''),
               (''was_merged'', PBool True), (''merge_count'', PNum 1)]]
   \<and> division_groups [cand_sanand_plant, cand_pune_plant, cand_sanand_unit]
       = [(PStr ''Wiring Systems'', [cand_sanand_plant, cand_pune_plant, cand_sanand_unit])]
   \<and> unmatched [cand_sanand_plant, cand_pune_plant, cand_sanand_unit] 1
   \<and> marked_single cand_pune_plant
       \<in> set [[(''name'', PStr ''Sanand Plant''), (''division'', PStr ''Wiring Systems''),
                (''city'', PStr ''Sanand''), (''state'', PStr ''Gujarat''),
                (''was_merged'', PBool True), (''merge_count'', PNum 2)],
               [(''name'', PStr ''Pune Plant''), (''division'', PStr ''Wiring Systems''),
                (''city'', PStr ''Pune''), (''state'', PStr ''Maharashtra''),
                (''was_merged'', PBool True), (''merge_count'', PNum 1)]]"
proof -
  let ?facs = "[cand_sanand_plant, cand_pune_plant, cand_sanand_unit]"
  let ?grp = "(PStr ''Wiring Systems'', ?facs)"
  let ?res = "[[(''name'', PStr ''Sanand Plant''), (''division'', PStr ''Wiring Systems''),
               (''city'', PStr ''Sanand''), (''state'', PStr ''Gujarat''),
               (''was_merged'', PBool True), (''merge_count'', PNum 2)],
              [(''name'', PStr ''Pune Plant''), (''division'', PStr ''Wiring Systems''),
               (''city'', PStr ''Pune''), (''state'', PStr ''Maharashtra''),
               (''was_merged'', PBool True), (''merge_count'', PNum 1)]]"
  have run: "resolve_facilities ?facs = Inr ?res"
    by code_simp
  have groups: "division_groups ?facs = [?grp]"
    by code_simp
  have grp_in: "?grp \<in> set (division_groups ?facs)"
    unfolding groups by simp
  have idx: "1 < length (snd ?grp)"
    by simp
  have un: "unmatched (snd ?grp) 1"
    by code_simp
  have dist: "distinct (map fst (snd ?grp ! 1))"
    by (simp add: cand_pune_plant_def)
  from singleton_group_marked [OF run grp_in idx un dist]
  have "marked_single cand_pune_plant \<in> set ?res" by simp
  with run groups un show ?thesis by simp
qed

text \<open>A candidate alone in its input does not come back unchanged: two fields are added.\<close>

theorem singleton_unchanged_counterexample:
  "resolve_facilities [cand_pune_plant] \<noteq> Inr [cand_pune_plant]
   \<and> resolve_facilities [cand_pune_plant]
       = Inr [[(''name'', PStr ''Pune Plant''), (''division'', PStr ''Wiring Systems''),
               (''city'', PStr ''Pune''), (''state'', PStr ''Maharashtra''),
               (''was_merged'', PBool True), (''merge_count'', PNum 1)]]"
  by code_simp

section \<open>Properties of ingestion\<close>

lemma sql_eq_None [simp]: "sql_eq a None = False" "sql_eq None b = False"
  by (simp_all add: sql_eq_def split: option.splits)

lemma insert_facility_null_city:
  assumes "fd_city fac = Null" and "bindable (field_get (fd_name fac) (Val []))"
    and "bindable (field_get (fd_state fac) Null)"
    and "bindable (field_get (fd_country fac) (Val ''India''))"
  shows "length (facilities (snd (insert_facility fac division_id db)))
           = Suc (length (facilities db))"
proof -
  have "field_get (fd_city fac) (Val []) = Null"
    using assms(1) by (simp add: field_get_def)
  then have "filter (\<lambda>f. sql_eq (sql_lower (f_name f)) (sql_lower (sql_text (field_get (fd_name fac) (Val []))))
                      \<and> sql_eq (sql_lower (f_city f)) (sql_lower (sql_text (field_get (fd_city fac) (Val [])))))
               (facilities db) = []"
    by (simp add: sql_lower_def sql_text_def)
  moreover have "bindable (field_get (fd_city fac) (Val []))"
    using assms(1) by (simp add: field_get_def bindable_def)
  ultimately show ?thesis
    using assms(2-4) by (simp add: insert_facility_def Let_def)
qed

text \<open>
  Claim C1, at a candidate with no \<open>city\<close>: a structured candidate without the key, and a
  facility mention naming no known city. The first run inserts one facility row; the
  second run on the same batch does not find it, because \<open>LOWER(city) = LOWER(?)\<close> is not
  true for the stored \<open>NULL\<close>, and inserts a second row. The division count stays at one.
\<close>

theorem build_graph_twice_duplicates_facility:
  "length (facilities (snd (build_graph
       [facilities_item ''u'' [fac_absent\<lparr>fd_name := Val ''Sanand Plant'', fd_division := Val ''MSWIL''\<rparr>]]
       empty_store))) = 1
   \<and> length (facilities (snd (build_graph
       [facilities_item ''u'' [fac_absent\<lparr>fd_name := Val ''Sanand Plant'', fd_division := Val ''MSWIL''\<rparr>]]
       (snd (build_graph
         [facilities_item ''u'' [fac_absent\<lparr>fd_name := Val ''Sanand Plant'', fd_division := Val ''MSWIL''\<rparr>]]
         empty_store))))) = 2
   \<and> length (divisions (snd (build_graph
       [facilities_item ''u'' [fac_absent\<lparr>fd_name := Val ''Sanand Plant'', fd_division := Val ''MSWIL''\<rparr>]]
       (snd (build_graph
         [facilities_item ''u'' [fac_absent\<lparr>fd_name := Val ''Sanand Plant'', fd_division := Val ''MSWIL''\<rparr>]]
         empty_store))))) = 1
   \<and> map f_city (facilities (snd (build_graph [dresden_item] empty_store))) = [None]
   \<and> length (facilities (snd (build_graph [dresden_item]
               (snd (build_graph [dresden_item] empty_store))))) = 2
   \<and> length (divisions (snd (build_graph [dresden_item]
               (snd (build_graph [dresden_item] empty_store))))) = 1"
  by code_simp


lemma next_id_positive [simp]: "0 < next_id ids"
  by (simp add: next_id_def)


lemma insert_facility_tables [simp]:
  "events (snd (insert_facility fac division_id db)) = events db"
  "evidence (snd (insert_facility fac division_id db)) = evidence db"
  "jobs (snd (insert_facility fac division_id db)) = jobs db"
  by (simp_all add: insert_facility_def Let_def split: list.splits)


lemma insert_event_tables [simp]:
  "facilities (insert_event facility_id event_type event_date status expansion_type db) = facilities db"
  "evidence (insert_event facility_id event_type event_date status expansion_type db) = evidence db"
  "jobs (insert_event facility_id event_type event_date status expansion_type db) = jobs db"
  by (simp_all add: insert_event_def)


lemma insert_evidence_tables [simp]:
  "facilities (insert_evidence source_id entity_type entity_id snippet confidence db) = facilities db"
  "events (insert_evidence source_id entity_type entity_id snippet confidence db) = events db"
  "jobs (insert_evidence source_id entity_type entity_id snippet confidence db) = jobs db"
  by (simp_all add: insert_evidence_def split: field.splits)


lemma insert_job_tables [simp]:
  "facilities (snd (insert_job job source_id db)) = facilities db"
  "events (snd (insert_job job source_id db)) = events db"
  "evidence (snd (insert_job job source_id db)) = evidence db"
  by (simp_all add: insert_job_def Let_def)


lemma insert_source_tables [simp]:
  "facilities (snd (insert_source source_data db)) = facilities db"
  "events (snd (insert_source source_data db)) = events db"
  "evidence (snd (insert_source source_data db)) = evidence db"
  "jobs (snd (insert_source source_data db)) = jobs db"
  by (simp_all add: insert_source_def Let_def split: field.splits)












lemma ensure_company_tables [simp]:
  "facilities (snd (ensure_company db)) = facilities db"
  "events (snd (ensure_company db)) = events db"
  "evidence (snd (ensure_company db)) = evidence db"
  "jobs (snd (ensure_company db)) = jobs db"
  by (simp_all add: ensure_company_def Let_def split: list.splits)












lemma insert_job_missing_role:
  assumes "jd_is_factory_role job = Missing" and "job_clean job"
  shows "map j_is_factory_role (jobs (snd (insert_job job source_id db)))
           = map j_is_factory_role (jobs db) @ [Some 0]"
  using assms by (simp add: insert_job_def job_clean_def field_get_def truthy_flag_def Let_def)

lemma job_of_entity_missing_role:
  assumes "je_is_factory_role ent = Missing" and "job_clean (job_of_entity ent)"
  shows "map j_is_factory_role (jobs (snd (insert_job (job_of_entity ent) source_id db)))
           = map j_is_factory_role (jobs db) @ [Some 1]"
  using assms
  by (simp add: insert_job_def job_clean_def job_of_entity_def field_get_def truthy_flag_def Let_def)

text \<open>
  Claim C6, at a structured job candidate without \<open>is_factory_role\<close>: the inserted row has
  \<open>is_factory_role = 0\<close>. A job-title entity without the field is inserted with 1.
\<close>

theorem structured_job_factory_role_zero:
  "map j_is_factory_role (jobs (snd (build_graph
       [\<lparr>it_source_data = Val (source_absent\<lparr>sd_url := Val ''u'',
            structured_jobs := Val [job_absent\<lparr>jd_title := Val ''Machine Operator'',
                                                jd_location := Val ''Pune''\<rparr>]\<rparr>),
         it_entities = Missing\<rparr>]
       empty_store))) = [Some 0]
   \<and> map j_is_factory_role (jobs (snd (build_graph
       [\<lparr>it_source_data = Val (source_absent\<lparr>sd_url := Val ''u''\<rparr>),
         it_entities = Val (entities_absent\<lparr>ent_job_titles :=
            Val [\<lparr>je_text = Val ''Machine Operator'', je_location = Missing,
                  je_is_factory_role = Missing\<rparr>]\<rparr>)\<rparr>]
       empty_store))) = [Some 1]"
  by code_simp

section \<open>Properties of the queries\<close>

lemma result_key_of_row: "result_key (expansion_result_of r) = expansion_key r"
  by (simp add: result_key_def expansion_result_of_def expansion_key_def)

lemma result_key_anonymous:
  "result_key res = ([], []) \<longleftrightarrow> \<not> given (x_facility res) \<and> \<not> given (x_city res)"
  by (auto simp: result_key_def given_def py_lower_def split: option.splits)

lemma expansion_fold_filter:
  "filter (\<lambda>res. result_key res = k) (snd (fold expansion_step rows (seen, results))) =
     filter (\<lambda>res. result_key res = k) results @
       (if k \<in> seen \<or> k = ([], []) then []
        else case find (\<lambda>r. expansion_key r = k) rows of
               None \<Rightarrow> [] | Some r \<Rightarrow> [expansion_result_of r])"
proof (induction rows arbitrary: seen results)
  case Nil
  then show ?case by simp
next
  case (Cons r rows)
  show ?case
  proof (cases "expansion_key r \<in> seen \<or> expansion_key r = ([], [])")
    case True
    then have "expansion_step r (seen, results) = (seen, results)"
      by (simp add: expansion_step_def)
    with Cons.IH [of seen results] True show ?thesis by auto
  next
    case False
    then have "expansion_step r (seen, results)
                 = (insert (expansion_key r) seen, results @ [expansion_result_of r])"
      by (simp add: expansion_step_def)
    with Cons.IH [of "insert (expansion_key r) seen" "results @ [expansion_result_of r]"] False
    show ?thesis by (auto simp: result_key_of_row)
  qed
qed

lemma expansion_fold_seen:
  "([], []) \<notin> seen \<Longrightarrow> ([], []) \<notin> fst (fold expansion_step rows (seen, results))"
  by (induction rows arbitrary: seen results) (auto simp: expansion_step_def Let_def)

lemma expansion_loop_filter:
  "filter (\<lambda>res. result_key res = k) (snd (expansion_loop (rows1 @ rows2))) =
     (if k = ([], []) then []
      else case find (\<lambda>r. expansion_key r = k) rows1 of
             Some r \<Rightarrow> [expansion_result_of r]
           | None \<Rightarrow> (case find (\<lambda>r. expansion_key r = k) rows2 of
                       Some r \<Rightarrow> [expansion_result_of r]
                     | None \<Rightarrow> []))"
proof -
  have "find (\<lambda>r. expansion_key r = k) (rows1 @ rows2) =
          (case find (\<lambda>r. expansion_key r = k) rows1 of
             Some r \<Rightarrow> Some r | None \<Rightarrow> find (\<lambda>r. expansion_key r = k) rows2)"
    by (induction rows1) auto
  then show ?thesis
    unfolding expansion_loop_def expansion_fold_filter
    by (auto split: option.splits)
qed

text \<open>
  Claim C4, as the code has it. For every key other than \<open>('', '')\<close> the rows returned with
  that key are exactly one row, built from the first type-(i) row with that key or, when
  there is none, from the first type-(ii) row with that key (and no row when neither
  exists); for the key \<open>('', '')\<close> nothing is returned.
\<close>

theorem query_expansions_dedup:
  "filter (\<lambda>res. result_key res = k) (query_expansions date_from date_to db) =
     (if k = ([], []) then []
      else case find (\<lambda>r. expansion_key r = k) (sql1 date_from date_to db) of
             Some r \<Rightarrow> [expansion_result_of r]
           | None \<Rightarrow> (case find (\<lambda>r. expansion_key r = k) (sql2 date_from date_to db) of
                       Some r \<Rightarrow> [expansion_result_of r]
                     | None \<Rightarrow> []))"
proof -
  have "query_expansions date_from date_to db =
          snd (expansion_loop (sql1 date_from date_to db @ sql2 date_from date_to db))"
    by (simp add: query_expansions_def)
  then show ?thesis
    by (simp only: expansion_loop_filter)
qed

theorem query_expansions_dedup_witness:
  "filter (\<lambda>res. result_key res = (''pune plant'', ''pune'')) (query_expansions None None case_store)
     = [\<lparr>x_facility = Some ''PUNE PLANT'', x_city = Some ''PUNE'', x_state = None,
          x_division = None, x_event_date = Some ''2024-01-01'', x_timeline = ''2024-01-01'',
          x_expansion_type = ''brownfield'', x_status = ''planned'', x_confidence = 7 / 10,
          x_url = ''https://www.motherson.com'', x_source_title = ''Motherson Document'',
          x_publish_date = None\<rparr>]"
proof -
  have "filter (\<lambda>res. result_key res = (''pune plant'', ''pune'')) (query_expansions None None case_store)
     = (if (''pune plant'', ''pune'') = ([], []) then []
        else case find (\<lambda>r. expansion_key r = (''pune plant'', ''pune'')) (sql1 None None case_store) of
               Some r \<Rightarrow> [expansion_result_of r]
             | None \<Rightarrow> (case find (\<lambda>r. expansion_key r = (''pune plant'', ''pune''))
                               (sql2 None None case_store) of
                         Some r \<Rightarrow> [expansion_result_of r]
                       | None \<Rightarrow> []))"
    by (rule query_expansions_dedup)
  also have "\<dots> = [\<lparr>x_facility = Some ''PUNE PLANT'', x_city = Some ''PUNE'', x_state = None,
          x_division = None, x_event_date = Some ''2024-01-01'', x_timeline = ''2024-01-01'',
          x_expansion_type = ''brownfield'', x_status = ''planned'', x_confidence = 7 / 10,
          x_url = ''https://www.motherson.com'', x_source_title = ''Motherson Document'',
          x_publish_date = None\<rparr>]"
    by code_simp
  finally show ?thesis .
qed

text \<open>
  A type-(i) row and a type-(ii) row share the key \<open>('', '')\<close>, and no row is returned for
  that key: the first occurrence is not kept.
\<close>

theorem anonymous_key_counterexample:
  "map expansion_key (sql1 None None anonymous_store) = [([], [])]
   \<and> map expansion_key (sql2 None None anonymous_store) = [([], []), (''sanand plant'', ''sanand'')]
   \<and> filter (\<lambda>res. result_key res = ([], [])) (query_expansions None None anonymous_store) = []
   \<and> map x_facility (query_expansions None None anonymous_store) = [Some ''Sanand Plant'']"
  by code_simp

text \<open>
  Claim C10. No returned row has both facility name and city empty or null, and the key
  \<open>('', '')\<close> never enters the set of seen keys.
\<close>

theorem query_expansions_no_anonymous:
  "([], []) \<notin> fst (expansion_loop (sql1 date_from date_to db @ sql2 date_from date_to db))
   \<and> list_all (\<lambda>res. given (x_facility res) \<or> given (x_city res))
        (query_expansions date_from date_to db)"
proof -
  have seen: "([], []) \<notin> fst (expansion_loop (sql1 date_from date_to db @ sql2 date_from date_to db))"
    unfolding expansion_loop_def by (rule expansion_fold_seen) simp
  have "filter (\<lambda>res. result_key res = ([], [])) (query_expansions date_from date_to db) = []"
    by (simp add: query_expansions_def expansion_loop_filter)
  then have "\<forall>res \<in> set (query_expansions date_from date_to db). result_key res \<noteq> ([], [])"
    by (simp add: filter_empty_conv)
  then have "list_all (\<lambda>res. given (x_facility res) \<or> given (x_city res))
               (query_expansions date_from date_to db)"
    by (auto simp: list_all_iff result_key_anonymous)
  with seen show ?thesis by simp
qed

theorem query_expansions_no_anonymous_witness:
  "length (sql1 None None anonymous_store @ sql2 None None anonymous_store) = 3
   \<and> ([], []) \<notin> fst (expansion_loop (sql1 None None anonymous_store @ sql2 None None anonymous_store))
   \<and> list_all (\<lambda>res. given (x_facility res) \<or> given (x_city res))
        (query_expansions None None anonymous_store)"
proof -
  have "length (sql1 None None anonymous_store @ sql2 None None anonymous_store) = 3"
    by code_simp
  with query_expansions_no_anonymous [of None None anonymous_store] show ?thesis by simp
qed

lemma set_insert_desc: "set (insert_desc key r xs) = insert r (set xs)"
  by (induction xs) auto

lemma set_fold_insert_desc: "set (fold (insert_desc key) rows acc) = set rows \<union> set acc"
  by (induction rows arbitrary: acc) (auto simp: set_insert_desc)

lemma set_order_by_desc: "set (order_by_desc key rows) = set rows"
  by (simp add: order_by_desc_def set_fold_insert_desc)

lemma set_distinct_rows: "set (distinct_rows rows) = set rows"
  by (simp add: distinct_rows_def)

lemma sql2_expansion_type:
  "r \<in> set (sql2 date_from date_to db) \<Longrightarrow> r_expansion_type r = Some ''expansion''"
  by (auto simp: sql2_def set_order_by_desc set_distinct_rows expansion_join_def)

lemma find_None_list_ex: "find P xs = None \<longleftrightarrow> \<not> list_ex P xs"
  by (auto simp: find_None_iff list_ex_iff)

text \<open>
  Claim C7, as the code has it. Every row the type-(ii) statement selects carries the tag
  \<open>expansion\<close>, and a returned row whose key no type-(i) row has is built from such a row:
  its \<open>expansion_type\<close> field is \<open>expansion\<close>.
\<close>

theorem type_ii_rows_tagged_expansion:
  assumes "res \<in> set (query_expansions date_from date_to db)"
    and "\<not> list_ex (\<lambda>r. expansion_key r = result_key res) (sql1 date_from date_to db)"
  shows "x_expansion_type res = ''expansion''
         \<and> (\<exists>r \<in> set (sql2 date_from date_to db).
               res = expansion_result_of r \<and> r_expansion_type r = Some ''expansion'')"
proof -
  let ?k = "result_key res"
  have mem: "res \<in> set (filter (\<lambda>x. result_key x = ?k) (query_expansions date_from date_to db))"
    using assms(1) by simp
  have none1: "find (\<lambda>r. expansion_key r = ?k) (sql1 date_from date_to db) = None"
    using assms(2) by (simp add: find_None_list_ex)
  have shape: "filter (\<lambda>x. result_key x = ?k) (query_expansions date_from date_to db) =
     (if ?k = ([], []) then []
      else case find (\<lambda>r. expansion_key r = ?k) (sql2 date_from date_to db) of
             Some r \<Rightarrow> [expansion_result_of r] | None \<Rightarrow> [])"
    by (simp add: query_expansions_def expansion_loop_filter none1)
  from mem shape obtain r where
    found: "find (\<lambda>r. expansion_key r = ?k) (sql2 date_from date_to db) = Some r"
    and res: "res = expansion_result_of r"
    by (auto split: if_splits option.splits)
  from found have r_in: "r \<in> set (sql2 date_from date_to db)"
    by (auto simp: find_Some_iff)
  then have tag: "r_expansion_type r = Some ''expansion''"
    by (rule sql2_expansion_type)
  have "x_expansion_type res = ''expansion''"
    using res tag by (simp add: expansion_result_of_def or_str_def)
  with r_in res tag show ?thesis by blast
qed

theorem type_ii_rows_tagged_expansion_witness:
  "query_expansions None None planned_store =
     [\<lparr>x_facility = Some ''Sanand Plant'', x_city = Some ''Sanand'', x_state = Some ''Gujarat'',
       x_division = Some ''Wiring Systems'', x_event_date = None, x_timeline = ''FY 2024-25'',
       x_expansion_type = ''expansion'', x_status = ''planned'', x_confidence = 8 / 10,
       x_url = ''u'', x_source_title = ''Untitled'', x_publish_date = None\<rparr>]
   \<and> sql1 None None planned_store = []
   \<and> list_ex (\<lambda>r. r_expansion_type r = Some ''expansion'') (sql2 None None planned_store)"
proof -
  let ?res = "\<lparr>x_facility = Some ''Sanand Plant'', x_city = Some ''Sanand'', x_state = Some ''Gujarat'',
       x_division = Some ''Wiring Systems'', x_event_date = None, x_timeline = ''FY 2024-25'',
       x_expansion_type = ''expansion'', x_status = ''planned'', x_confidence = 8 / 10,
       x_url = ''u'', x_source_title = ''Untitled'', x_publish_date = None\<rparr>"
  have q: "query_expansions None None planned_store = [?res]"
    by code_simp
  have s1: "sql1 None None planned_store = []"
    by code_simp
  have mem: "?res \<in> set (query_expansions None None planned_store)"
    unfolding q by simp
  have no1: "\<not> list_ex (\<lambda>r. expansion_key r = result_key ?res) (sql1 None None planned_store)"
    unfolding s1 by simp
  from type_ii_rows_tagged_expansion [OF mem no1]
  have "list_ex (\<lambda>r. r_expansion_type r = Some ''expansion'') (sql2 None None planned_store)"
    by (auto simp: list_ex_iff)
  with q s1 show ?thesis by simp
qed

text \<open>
  A planned event with no stored \<open>expansion_type\<close> is returned with the field
  \<open>expansion\<close>, not \<open>greenfield\<close>.
\<close>

theorem type_ii_greenfield_counterexample:
  "map e_expansion_type (events planned_store) = [None]
   \<and> map e_status (events planned_store) = [Some ''planned'']
   \<and> map x_expansion_type (query_expansions None None planned_store) = [''expansion'']
   \<and> map x_expansion_type (query_expansions None None planned_store) \<noteq> [''greenfield'']"
  by code_simp

lemma sql_eq_Some: "sql_eq a (Some x) \<longleftrightarrow> a = Some x"
  by (cases a) (simp_all add: sql_eq_def)

lemma evidence_sources_empty: "\<not> has_evidence fid db \<Longrightarrow> evidence_sources fid db = []"
  by (auto simp: has_evidence_def evidence_sources_def list_ex_iff sql_eq_Some)

lemma left_join_nonempty: "left_join P xs \<noteq> []"
  by (simp add: left_join_def split: list.splits)

lemma facility_in_groups:
  assumes "f \<in> set (facilities db)"
  shows "\<exists>g \<in> set (facility_groups None None db). g_id g = f_id f"
proof -
  obtain d where d: "d \<in> set (left_join (\<lambda>d. sql_eq (f_division_id f) (Some (d_id d))) (divisions db))"
    using left_join_nonempty [of "\<lambda>d. sql_eq (f_division_id f) (Some (d_id d))" "divisions db"]
    by (cases "left_join (\<lambda>d. sql_eq (f_division_id f) (Some (d_id d))) (divisions db)") auto
  obtain e where e: "e \<in> set (left_join (\<lambda>e. sql_eq (Some (f_id f)) (e_facility_id e)) (events db))"
    using left_join_nonempty [of "\<lambda>e. sql_eq (Some (f_id f)) (e_facility_id e)" "events db"]
    by (cases "left_join (\<lambda>e. sql_eq (Some (f_id f)) (e_facility_id e)) (events db)") auto
  let ?g = "\<lparr>g_id = f_id f, g_name = f_name f, g_city = f_city f, g_state = f_state f,
             g_country = f_country f, g_division = map_option d_name d\<rparr>"
  have "?g \<in> set (facility_groups None None db)"
    using assms d e
    by (auto simp: facility_groups_def set_distinct_rows given_def intro!: bexI [of _ f])
  then show ?thesis by (intro bexI [of _ ?g]) simp_all
qed

text \<open>
  Claim C8. A facility with no evidence row joining a source to it is returned by the
  unfiltered \<open>query_facilities\<close>, and every row returned for it, under any filter, has
  \<open>source_title\<close> \<open>Motherson Address Directory\<close> and the address-directory URL.
\<close>

theorem query_facilities_default_evidence:
  assumes "f \<in> set (facilities db)" and "\<not> has_evidence (f_id f) db"
  shows "(\<exists>res \<in> set (query_facilities None None None db). q_id res = f_id f)
         \<and> (\<forall>res \<in> set (query_facilities division state status db).
               q_id res = f_id f \<longrightarrow>
                 q_source_title res = ''Motherson Address Directory''
                 \<and> q_url res = ''https://www.motherson.com/contact/address-directory'')"
proof -
  from facility_in_groups [OF assms(1)] obtain g where
    g: "g \<in> set (facility_groups None None db)" "g_id g = f_id f" by blast
  then have "facility_result_of db g \<in> set (query_facilities None None None db)"
    by (simp add: query_facilities_def given_def)
  moreover have "q_id (facility_result_of db g) = f_id f"
    using g(2) by (simp add: facility_result_of_def)
  ultimately have ex: "\<exists>res \<in> set (query_facilities None None None db). q_id res = f_id f"
    by blast
  have none: "source_subquery col (f_id f) db = None" for col
    using evidence_sources_empty [OF assms(2)] by (simp add: source_subquery_def)
  have dflt: "q_source_title res = ''Motherson Address Directory''
                 \<and> q_url res = ''https://www.motherson.com/contact/address-directory''"
    if "res \<in> set (query_facilities division state status db)" "q_id res = f_id f" for res
  proof -
    from that(1) obtain g' where res: "res = facility_result_of db g'"
      by (auto simp: query_facilities_def)
    with that(2) have "g_id g' = f_id f" by (simp add: facility_result_of_def)
    then show ?thesis using res none by (simp add: facility_result_of_def or_str_def)
  qed
  from ex dflt show ?thesis by blast
qed

theorem query_facilities_default_evidence_witness:
  "list_ex (\<lambda>res. q_id res = 1 \<and> q_source_title res = ''Motherson Address Directory''
                  \<and> q_url res = ''https://www.motherson.com/contact/address-directory'')
     (query_facilities None None None case_store)"
proof -
  let ?f = "\<lparr>f_id = 1, f_division_id = None, f_name = Some ''Pune Plant'', f_city = Some ''Pune'',
          f_state = None, f_country = None, f_normalized_name = None\<rparr>"
  have f_in: "?f \<in> set (facilities case_store)"
    by (simp add: case_store_def)
  have no_ev: "\<not> has_evidence (f_id ?f) case_store"
    by (simp add: has_evidence_def case_store_def)
  from query_facilities_default_evidence [OF f_in no_ev, of None None None]
  show ?thesis by (auto simp: list_ex_iff)
qed

end
